theory Spec2Isabelle
  imports Complex_Main "HOL-Library.AList" "HOL-Library.Char_ord" "HOL-Library.List_Lexorder"
begin

section \<open>Tables: the part of the data-frame library the script relies on\<close>

text \<open>
  The program is one straight-line script (\<^verbatim>\<open>code.py\<close>). Every step is a call into the
  table library or the learning library, so the embedding gives each call the meaning the
  library documents for it, with the script's own arguments. A failure of a call (an
  exception that ends the run) is the left injection of a sum.
\<close>

text \<open>
  The errors are the library's exceptions. \<open>NotModelled\<close> is not one of them: it marks a
  call the embedding leaves out (a grid key that addresses the pipeline itself or the column
  transformer, a parameter value of the wrong kind), none of which the script makes.
\<close>

datatype error =
  KeyError string | ValueError string | IndexError string | TypeError string | NotModelled string

text \<open>A parsed date-time, with the fields the \<^verbatim>\<open>.dt\<close> accessor reads.\<close>

record timestamp =
  year :: int
  month :: int
  day :: int
  hour :: int
  minute :: int
  second :: int

text \<open>
  \<^verbatim>\<open>.dt.dayofweek\<close> is computed from the calendar date: Monday is 0, Sunday is 6.
  The day count is the proleptic Gregorian one, 0 on 1970-01-01 (a Thursday).
\<close>

definition days_from_civil :: "int \<Rightarrow> int \<Rightarrow> int \<Rightarrow> int" where
  "days_from_civil y m d =
     (let y' = (if m \<le> 2 then y - 1 else y);
          era = y' div 400;
          yoe = y' - era * 400;
          doy = (153 * (if m > 2 then m - 3 else m + 9) + 2) div 5 + d - 1;
          doe = yoe * 365 + yoe div 4 - yoe div 100 + doy
      in era * 146097 + doe - 719468)"

definition dayofweek :: "timestamp \<Rightarrow> int" where
  "dayofweek t = (days_from_civil (year t) (month t) (day t) + 3) mod 7"

datatype dtype = Float64 | Int64 | Int32 | Bool | Object | Datetime64 | Category

datatype cell = NaN | NaT | Float real | Integer int | Boolean bool | Str string | Time timestamp

text \<open>
  A row label. \<^verbatim>\<open>read_csv\<close> numbers the rows (a range index); \<^verbatim>\<open>set_index\<close> makes the
  cells of a column the labels.
\<close>

datatype label = RowNo nat | Key cell

type_synonym row = "(string \<times> cell) list"

text \<open>
  A data frame: the row labels, the columns in order with their dtypes
  (\<^verbatim>\<open>data.dtypes\<close>), and the rows, each a mapping from column name to cell.
\<close>

record dataframe =
  index :: "label list"
  dtypes :: "(string \<times> dtype) list"
  rows :: "row list"

record series =
  s_index :: "label list"
  s_dtype :: dtype
  s_cells :: "cell list"

definition columns :: "dataframe \<Rightarrow> string list" where
  "columns df = map fst (dtypes df)"

definition cell_of :: "row \<Rightarrow> string \<Rightarrow> cell" where
  "cell_of r c = (case map_of r c of Some v \<Rightarrow> v | None \<Rightarrow> NaN)"

text \<open>\<^verbatim>\<open>df[name]\<close>: the cells of a column, or \<^verbatim>\<open>KeyError\<close>.\<close>

definition getitem :: "dataframe \<Rightarrow> string \<Rightarrow> error + cell list" where
  "getitem df name =
     (if name \<in> set (columns df) then Inr (map (\<lambda>r. cell_of r name) (rows df))
      else Inl (KeyError name))"

text \<open>
  \<^verbatim>\<open>df[name] = cells\<close>: an existing column is overwritten in place, a new one is appended.
  The cells are given in row order.
\<close>

definition setitem :: "string \<Rightarrow> dtype \<Rightarrow> cell list \<Rightarrow> dataframe \<Rightarrow> dataframe" where
  "setitem name dt cells df =
     df\<lparr>dtypes := AList.update name dt (dtypes df),
        rows := map (\<lambda>(r, v). AList.update name v r) (zip (rows df) cells)\<rparr>"

definition isna :: "cell \<Rightarrow> bool" where
  "isna c = (c = NaN \<or> c = NaT)"

text \<open>\<^verbatim>\<open>df.dropna(subset=[name])\<close>: the rows whose cell in that column is missing go, with their labels.\<close>

definition dropna :: "string \<Rightarrow> dataframe \<Rightarrow> error + dataframe" where
  "dropna name df =
     (if name \<in> set (columns df) then
        (let kept = filter (\<lambda>(l, r). \<not> isna (cell_of r name)) (zip (index df) (rows df))
         in Inr (df\<lparr>index := map fst kept, rows := map snd kept\<rparr>))
      else Inl (KeyError name))"

section \<open>Data loader (line 15)\<close>

text \<open>
  \<^verbatim>\<open>pd.read_csv(path, on_bad_lines='skip')\<close>, from the records of the file (the lines that
  were not skipped, each a mapping from column name to parsed cell): the rows are numbered
  from 0, and the dtype of a column is inferred from all of its cells. A column of booleans
  only is \<^verbatim>\<open>bool\<close>, of integers only \<^verbatim>\<open>int64\<close>, of numbers and missing cells \<^verbatim>\<open>float64\<close>; any
  other column, a boolean column with a missing cell included, is \<^verbatim>\<open>object\<close>.
\<close>

definition infer_dtype :: "cell list \<Rightarrow> dtype" where
  "infer_dtype cells =
     (if cells = [] then Object
      else if list_all (\<lambda>c. case c of Boolean b \<Rightarrow> True | _ \<Rightarrow> False) cells then Bool
      else if list_all (\<lambda>c. case c of Integer i \<Rightarrow> True | _ \<Rightarrow> False) cells then Int64
      else if list_all (\<lambda>c. case c of Integer i \<Rightarrow> True | Float x \<Rightarrow> True | NaN \<Rightarrow> True | _ \<Rightarrow> False) cells
      then Float64
      else Object)"

definition read_csv :: "string list \<Rightarrow> row list \<Rightarrow> dataframe" where
  "read_csv names records =
     \<lparr>index = map RowNo [0..<length records],
      dtypes = map (\<lambda>c. (c, infer_dtype (map (\<lambda>r. cell_of r c) records))) names,
      rows = records\<rparr>"

section \<open>Feature deriver (lines 23 to 29)\<close>

text \<open>
  \<^verbatim>\<open>pd.to_datetime(col, errors='coerce')\<close>: the conversion of one cell is the library's
  (\<open>parse\<close>, a parameter: \<open>None\<close> when it fails); with \<^verbatim>\<open>coerce\<close> a failed cell
  becomes \<^verbatim>\<open>NaT\<close>.
\<close>

definition to_datetime :: "(cell \<Rightarrow> timestamp option) \<Rightarrow> cell list \<Rightarrow> cell list" where
  "to_datetime parse cells = map (\<lambda>c. case parse c of Some t \<Rightarrow> Time t | None \<Rightarrow> NaT) cells"

text \<open>The \<^verbatim>\<open>.dt\<close> accessor of a date-time column: a field of every cell; missing stays missing.\<close>

definition dt :: "(timestamp \<Rightarrow> int) \<Rightarrow> cell list \<Rightarrow> cell list" where
  "dt field cells = map (\<lambda>c. case c of Time t \<Rightarrow> Integer (field t) | _ \<Rightarrow> NaN) cells"

text \<open>
  \<^verbatim>\<open>data[name] = data['timestamp'].dt.field\<close>. The dtype of the new column is the
  library's integer dtype for calendar fields (\<open>idt\<close>: \<^verbatim>\<open>int64\<close> in older releases of the
  library, \<^verbatim>\<open>int32\<close> in newer ones).
\<close>

definition assign_dt :: "string \<Rightarrow> dtype \<Rightarrow> (timestamp \<Rightarrow> int) \<Rightarrow> dataframe \<Rightarrow> error + dataframe" where
  "assign_dt name idt field df =
     (case getitem df ''timestamp'' of
        Inl e \<Rightarrow> Inl e
      | Inr col \<Rightarrow> Inr (setitem name idt (dt field col) df))"

definition bind :: "error + 'a \<Rightarrow> ('a \<Rightarrow> error + 'b) \<Rightarrow> error + 'b" where
  "bind m f = (case m of Inl e \<Rightarrow> Inl e | Inr x \<Rightarrow> f x)"

fun sequence :: "(error + 'a) list \<Rightarrow> error + 'a list" where
  "sequence [] = Inr []"
| "sequence (m # ms) = bind m (\<lambda>x. bind (sequence ms) (\<lambda>xs. Inr (x # xs)))"

definition feature_deriver :: "(cell \<Rightarrow> timestamp option) \<Rightarrow> dtype \<Rightarrow> dataframe \<Rightarrow> error + dataframe" where
  "feature_deriver parse idt data =
     bind (getitem data ''timestamp'') (\<lambda>col.
     bind (dropna ''timestamp'' (setitem ''timestamp'' Datetime64 (to_datetime parse col) data)) (\<lambda>data.
     bind (assign_dt ''year'' idt year data) (\<lambda>data.
     bind (assign_dt ''month'' idt month data) (\<lambda>data.
     bind (assign_dt ''day'' idt day data) (\<lambda>data.
     bind (assign_dt ''hour'' idt hour data) (\<lambda>data.
     assign_dt ''dayofweek'' idt dayofweek data))))))"

section \<open>Column classifier (lines 32 to 37)\<close>

definition target :: string where
  "target = ''consumption''"

text \<open>\<^verbatim>\<open>Index.drop(labels)\<close>: the names without the given ones; a label that is not there raises.\<close>

definition index_drop :: "string list \<Rightarrow> string list \<Rightarrow> error + string list" where
  "index_drop names labels =
     (case filter (\<lambda>l. l \<notin> set names) labels of
        [] \<Rightarrow> Inr (filter (\<lambda>c. c \<notin> set labels) names)
      | l # _ \<Rightarrow> Inl (KeyError l))"

text \<open>\<^verbatim>\<open>df.select_dtypes(include=ts).columns\<close>: the columns whose dtype is one of the listed ones.\<close>

definition select_dtypes :: "dtype list \<Rightarrow> dataframe \<Rightarrow> string list" where
  "select_dtypes include_list df = map fst (filter (\<lambda>(c, t). t \<in> set include_list) (dtypes df))"

definition features :: "dataframe \<Rightarrow> error + string list" where
  "features data = index_drop (columns data) [target, ''timestamp'']"

definition num_cols :: "dataframe \<Rightarrow> error + string list" where
  "num_cols data = index_drop (select_dtypes [Float64, Int64] data) [target]"

definition cat_cols :: "dataframe \<Rightarrow> string list" where
  "cat_cols data = select_dtypes [Object] data"

section \<open>Train/test split (lines 72 to 74)\<close>

text \<open>\<^verbatim>\<open>data[names]\<close>: the frame of the named columns, in that order.\<close>

definition getitems :: "dataframe \<Rightarrow> string list \<Rightarrow> error + dataframe" where
  "getitems df names =
     (case filter (\<lambda>c. c \<notin> set (columns df)) names of
        [] \<Rightarrow> Inr (df\<lparr>dtypes := map (\<lambda>c. (c, the (map_of (dtypes df) c))) names,
                     rows := map (\<lambda>r. map (\<lambda>c. (c, cell_of r c)) names) (rows df)\<rparr>)
      | c # _ \<Rightarrow> Inl (KeyError c))"

text \<open>\<^verbatim>\<open>data[name]\<close> as a series, with the frame's row labels.\<close>

definition getseries :: "dataframe \<Rightarrow> string \<Rightarrow> error + series" where
  "getseries df name =
     (case map_of (dtypes df) name of
        None \<Rightarrow> Inl (KeyError name)
      | Some t \<Rightarrow> Inr \<lparr>s_index = index df, s_dtype = t, s_cells = map (\<lambda>r. cell_of r name) (rows df)\<rparr>)"

text \<open>Rows by position (\<^verbatim>\<open>iloc\<close>); a position outside the frame raises.\<close>

definition iloc :: "dataframe \<Rightarrow> nat list \<Rightarrow> error + dataframe" where
  "iloc df idx =
     (if list_all (\<lambda>i. i < length (index df) \<and> i < length (rows df)) idx
      then Inr (df\<lparr>index := map (\<lambda>i. index df ! i) idx, rows := map (\<lambda>i. rows df ! i) idx\<rparr>)
      else Inl (IndexError ''positional indexers are out-of-bounds''))"

definition s_iloc :: "series \<Rightarrow> nat list \<Rightarrow> error + series" where
  "s_iloc s idx =
     (if list_all (\<lambda>i. i < length (s_index s) \<and> i < length (s_cells s)) idx
      then Inr (s\<lparr>s_index := map (\<lambda>i. s_index s ! i) idx, s_cells := map (\<lambda>i. s_cells s ! i) idx\<rparr>)
      else Inl (IndexError ''positional indexers are out-of-bounds''))"

text \<open>
  \<^verbatim>\<open>train_test_split(X, y, test_size, random_state)\<close> with a fractional test size:
  the test part has \<open>ceil (test_size * n)\<close> rows, the train part has the rest, and a run
  with no training row raises. The rows are drawn by the generator's permutation of the
  positions \<open>0..<n\<close>, a function \<open>rng\<close> of the seed and of \<open>n\<close>: the first \<open>n_test\<close> positions
  of the permutation are the test rows, the following \<open>n_train\<close> the training rows.
  The size is computed here in exact arithmetic.
\<close>

definition split_sizes :: "real \<Rightarrow> nat \<Rightarrow> error + nat \<times> nat" where
  "split_sizes test_size n =
     (if test_size \<le> 0 \<or> test_size \<ge> 1 then Inl (ValueError ''test_size'')
      else
        (let n_test = nat \<lceil>test_size * real n\<rceil>;
             n_train = n - n_test
         in if n_train = 0 then Inl (ValueError ''the resulting train set will be empty'')
            else Inr (n_train, n_test)))"

definition split_positions :: "(nat \<Rightarrow> nat \<Rightarrow> nat list) \<Rightarrow> real \<Rightarrow> nat \<Rightarrow> nat \<Rightarrow> error + nat list \<times> nat list" where
  "split_positions rng test_size random_state n =
     bind (split_sizes test_size n) (\<lambda>(n_train, n_test).
       (let permutation = rng random_state n;
            ind_test = take n_test permutation;
            ind_train = take n_train (drop n_test permutation)
        in Inr (ind_train, ind_test)))"

definition train_test_split ::
  "(nat \<Rightarrow> nat \<Rightarrow> nat list) \<Rightarrow> dataframe \<Rightarrow> series \<Rightarrow> real \<Rightarrow> nat
     \<Rightarrow> error + dataframe \<times> dataframe \<times> series \<times> series" where
  "train_test_split rng X y test_size random_state =
     (if length (rows X) \<noteq> length (s_cells y)
      then Inl (ValueError ''inconsistent numbers of samples'')
      else
        bind (split_positions rng test_size random_state (length (rows X))) (\<lambda>(ind_train, ind_test).
        bind (iloc X ind_train) (\<lambda>X_train.
        bind (iloc X ind_test) (\<lambda>X_test.
        bind (s_iloc y ind_train) (\<lambda>y_train.
        bind (s_iloc y ind_test) (\<lambda>y_test.
          Inr (X_train, X_test, y_train, y_test)))))))"

section \<open>Preprocessing transformer (lines 39 to 55)\<close>

text \<open>
  What the numeric path reads from a cell: a \<^verbatim>\<open>float64\<close> or \<^verbatim>\<open>int64\<close> column holds numbers
  and missing cells; \<open>None\<close> is the missing value.
\<close>

definition to_num :: "cell \<Rightarrow> real option" where
  "to_num c = (case c of Float x \<Rightarrow> Some x | Integer i \<Rightarrow> Some (real_of_int i) | _ \<Rightarrow> None)"

text \<open>
  What the categorical path reads from a cell: every cell that is not missing is a category
  value. An \<^verbatim>\<open>object\<close> column holds the language's own values, and these are compared as
  the language compares them: a boolean equals the number 0 or 1, an integer equals the
  float of the same value, a string or a timestamp equals only itself.
\<close>

datatype category = Number real | Text string | Moment timestamp

definition to_cat :: "cell \<Rightarrow> category option" where
  "to_cat c =
     (case c of
        NaN \<Rightarrow> None
      | NaT \<Rightarrow> None
      | Float x \<Rightarrow> Some (Number x)
      | Integer i \<Rightarrow> Some (Number (real_of_int i))
      | Boolean b \<Rightarrow> Some (Number (if b then 1 else 0))
      | Str s \<Rightarrow> Some (Text s)
      | Time t \<Rightarrow> Some (Moment t))"

primrec observed :: "'a option list \<Rightarrow> 'a list" where
  "observed [] = []"
| "observed (v # vs) = (case v of None \<Rightarrow> observed vs | Some x \<Rightarrow> x # observed vs)"

definition median :: "real list \<Rightarrow> real" where
  "median xs =
     (let s = sort xs; n = length s
      in if even n then (s ! (n div 2 - 1) + s ! (n div 2)) / 2 else s ! (n div 2))"

text \<open>
  The distinct values of a list in increasing order, as the library sorts the categories
  of a column and breaks ties between equally frequent values: numbers by value, strings
  as strings, timestamps in time. Values of different kinds cannot be ordered: the library
  raises \<^verbatim>\<open>TypeError\<close>.
\<close>

fun number_of :: "category \<Rightarrow> real" where
  "number_of (Number x) = x"
| "number_of _ = 0"

fun text_of :: "category \<Rightarrow> string" where
  "text_of (Text s) = s"
| "text_of _ = []"

definition seconds :: "timestamp \<Rightarrow> int" where
  "seconds t = ((days_from_civil (year t) (month t) (day t) * 24 + hour t) * 60 + minute t) * 60 + second t"

fun moment_of :: "category \<Rightarrow> int" where
  "moment_of (Moment t) = seconds t"
| "moment_of _ = 0"

definition same_kind :: "category list \<Rightarrow> bool" where
  "same_kind xs =
     (list_all (\<lambda>x. case x of Number v \<Rightarrow> True | _ \<Rightarrow> False) xs \<or>
      list_all (\<lambda>x. case x of Text s \<Rightarrow> True | _ \<Rightarrow> False) xs \<or>
      list_all (\<lambda>x. case x of Moment t \<Rightarrow> True | _ \<Rightarrow> False) xs)"

definition sort_categories :: "category list \<Rightarrow> error + category list" where
  "sort_categories xs =
     (if list_all (\<lambda>x. case x of Number v \<Rightarrow> True | _ \<Rightarrow> False) xs
      then Inr (sort_key number_of (remdups xs))
      else if list_all (\<lambda>x. case x of Text s \<Rightarrow> True | _ \<Rightarrow> False) xs
      then Inr (sort_key text_of (remdups xs))
      else if list_all (\<lambda>x. case x of Moment t \<Rightarrow> True | _ \<Rightarrow> False) xs
      then Inr (sort_key moment_of (remdups xs))
      else Inl (TypeError ''argument must be uniformly strings or numbers''))"

text \<open>
  \<^verbatim>\<open>SimpleImputer(strategy='median')\<close> and \<^verbatim>\<open>SimpleImputer(strategy='most_frequent')\<close>: the
  statistic of one column, from its observed cells. A column with no observed cell has no
  statistic and is left out of the output. Among equally frequent values the least is taken.
\<close>

definition impute_median :: "real option list \<Rightarrow> real option" where
  "impute_median col = (case observed col of [] \<Rightarrow> None | x # xs \<Rightarrow> Some (median (x # xs)))"

definition impute_most_frequent :: "category option list \<Rightarrow> error + category option" where
  "impute_most_frequent col =
     (let xs = observed col;
          most = fold max (map (count_list xs) xs) 0
      in bind (sort_categories (filter (\<lambda>x. count_list xs x = most) xs)) (\<lambda>tied.
           Inr (case tied of [] \<Rightarrow> None | x # _ \<Rightarrow> Some x)))"

text \<open>\<^verbatim>\<open>StandardScaler\<close>: mean and population standard deviation of a column; a zero deviation scales by 1.\<close>

definition mean :: "real list \<Rightarrow> real" where
  "mean xs = sum_list xs / real (length xs)"

definition scale :: "real list \<Rightarrow> real" where
  "scale xs =
     (let m = mean xs;
          s = sqrt (sum_list (map (\<lambda>x. (x - m)\<^sup>2) xs) / real (length xs))
      in if s = 0 then 1 else s)"

text \<open>
  \<^verbatim>\<open>OneHotEncoder(handle_unknown=...)\<close>: the indicator vector of a value over the known
  categories of its column. A value that is not among them raises under \<^verbatim>\<open>'error'\<close>
  (the library's default); under \<^verbatim>\<open>'ignore'\<close> it is encoded like any other value, by comparison
  with each known category.
\<close>

datatype handle_unknown = Error | Ignore

definition onehot :: "handle_unknown \<Rightarrow> category list \<Rightarrow> category \<Rightarrow> error + real list" where
  "onehot hu categories v =
     (if v \<notin> set categories \<and> hu = Error then Inl (ValueError ''Found unknown categories'')
      else Inr (map (\<lambda>c. if c = v then 1 else 0) categories))"

text \<open>
  The two transformers of the script, each an imputer followed by a second step:
  \<open>Impute_scale\<close> is median imputation then scaling, \<open>Impute_onehot\<close> is most-frequent
  imputation then one-hot encoding. Both steps work column by column, so a fitted
  transformer holds, for each of its input columns in order, what the two steps learnt from
  it: the imputation statistic with the mean and the scale, or the imputation statistic with
  the sorted categories; \<open>None\<close> for a column without observed cell, which the imputer
  leaves out.
\<close>

datatype transformer = Impute_scale | Impute_onehot handle_unknown

definition num_transformer :: transformer where
  "num_transformer = Impute_scale"

definition cat_transformer :: transformer where
  "cat_transformer = Impute_onehot Ignore"

datatype fitted_transformer =
  Fitted_scale "(real \<times> real \<times> real) option list"
| Fitted_onehot handle_unknown "(category \<times> category list) option list"

definition fit_scale_column :: "cell list \<Rightarrow> (real \<times> real \<times> real) option" where
  "fit_scale_column col =
     (case impute_median (map to_num col) of
        None \<Rightarrow> None
      | Some m \<Rightarrow>
          (let imputed = map (\<lambda>c. case to_num c of None \<Rightarrow> m | Some x \<Rightarrow> x) col
           in Some (m, mean imputed, scale imputed)))"

definition fit_onehot_column :: "cell list \<Rightarrow> error + (category \<times> category list) option" where
  "fit_onehot_column col =
     bind (impute_most_frequent (map to_cat col)) (\<lambda>statistic.
       case statistic of
         None \<Rightarrow> Inr None
       | Some m \<Rightarrow>
           bind (sort_categories (map (\<lambda>c. case to_cat c of None \<Rightarrow> m | Some k \<Rightarrow> k) col)) (\<lambda>categories.
             Inr (Some (m, categories))))"

text \<open>
  Fitting takes the columns (each the list of its cells). When the imputer leaves no
  column, the second step is given a table without features and raises.
\<close>

fun fit_transformer :: "transformer \<Rightarrow> cell list list \<Rightarrow> error + fitted_transformer" where
  "fit_transformer Impute_scale cols =
     (let fitted = map fit_scale_column cols
      in if list_all (\<lambda>f. f = None) fitted then Inl (ValueError ''Found array with 0 feature(s)'')
         else Inr (Fitted_scale fitted))"
| "fit_transformer (Impute_onehot hu) cols =
     bind (sequence (map fit_onehot_column cols)) (\<lambda>fitted.
       if list_all (\<lambda>f. f = None) fitted then Inl (ValueError ''Found array with 0 feature(s)'')
       else Inr (Fitted_onehot hu fitted))"

text \<open>Transforming takes one row of cells, one cell for each input column.\<close>

fun scale_cell :: "(real \<times> real \<times> real) option \<Rightarrow> cell \<Rightarrow> real list" where
  "scale_cell None c = []"
| "scale_cell (Some (m, mu, s)) c = [((case to_num c of None \<Rightarrow> m | Some x \<Rightarrow> x) - mu) / s]"

fun encode :: "handle_unknown \<Rightarrow> (category \<times> category list) option \<Rightarrow> cell \<Rightarrow> error + real list" where
  "encode hu None c = Inr []"
| "encode hu (Some (m, categories)) c = onehot hu categories (case to_cat c of None \<Rightarrow> m | Some k \<Rightarrow> k)"

fun onehot_row :: "handle_unknown \<Rightarrow> (category \<times> category list) option list \<Rightarrow> cell list \<Rightarrow> error + real list" where
  "onehot_row hu (f # fs) (c # cs) =
     bind (encode hu f c) (\<lambda>x. bind (onehot_row hu fs cs) (\<lambda>xs. Inr (x @ xs)))"
| "onehot_row hu _ _ = Inr []"

fun transform_row :: "fitted_transformer \<Rightarrow> cell list \<Rightarrow> error + real list" where
  "transform_row (Fitted_scale fitted) cells = Inr (concat (map (\<lambda>(f, c). scale_cell f c) (zip fitted cells)))"
| "transform_row (Fitted_onehot hu fitted) cells = onehot_row hu fitted cells"

definition n_categories :: "(category \<times> category list) option \<Rightarrow> nat" where
  "n_categories f = (case f of None \<Rightarrow> 0 | Some (m, categories) \<Rightarrow> length categories)"

fun n_features_out :: "fitted_transformer \<Rightarrow> nat" where
  "n_features_out (Fitted_scale fitted) = length (filter (\<lambda>f. f \<noteq> None) fitted)"
| "n_features_out (Fitted_onehot hu fitted) = sum_list (map n_categories fitted)"

text \<open>
  \<^verbatim>\<open>ColumnTransformer(transformers=[(name, transformer, columns), ...])\<close>. Each transformer
  reads its own columns, and one with an empty column list is skipped; \<^verbatim>\<open>remainder\<close> says
  what happens to the columns no transformer lists, and the script leaves it at the default
  \<^verbatim>\<open>'drop'\<close>.
\<close>

datatype remainder = Drop | Passthrough

record column_transformer =
  transformers :: "(string \<times> transformer \<times> string list) list"
  remainder :: remainder

record fitted_column_transformer =
  fitted_transformers :: "(string list \<times> fitted_transformer) list"
  fitted_remainder :: "string list"

definition preprocessor :: "string list \<Rightarrow> string list \<Rightarrow> column_transformer" where
  "preprocessor num cat =
     \<lparr>transformers = [(''num'', num_transformer, num), (''cat'', cat_transformer, cat)],
      remainder = Drop\<rparr>"

definition listed_columns :: "column_transformer \<Rightarrow> string list" where
  "listed_columns ct = concat (map (\<lambda>(name, t, cols). cols) (transformers ct))"

text \<open>The columns of a frame that reach the output of the combined transformer.\<close>

definition input_columns :: "column_transformer \<Rightarrow> dataframe \<Rightarrow> string list" where
  "input_columns ct X =
     listed_columns ct @
     (case remainder ct of
        Drop \<Rightarrow> []
      | Passthrough \<Rightarrow> filter (\<lambda>c. c \<notin> set (listed_columns ct)) (columns X))"

definition column_cells :: "dataframe \<Rightarrow> string \<Rightarrow> cell list" where
  "column_cells X c = map (\<lambda>r. cell_of r c) (rows X)"

definition column_transformer_fit :: "column_transformer \<Rightarrow> dataframe \<Rightarrow> error + fitted_column_transformer" where
  "column_transformer_fit ct X =
     (case filter (\<lambda>c. c \<notin> set (columns X)) (listed_columns ct) of
        c # _ \<Rightarrow> Inl (ValueError ''A given column is not a column of the dataframe'')
      | [] \<Rightarrow>
          bind (sequence (map (\<lambda>(name, t, cols).
                    bind (fit_transformer t (map (column_cells X) cols)) (\<lambda>ft. Inr (cols, ft)))
                  (filter (\<lambda>(name, t, cols). cols \<noteq> []) (transformers ct)))) (\<lambda>fitted.
            Inr \<lparr>fitted_transformers = fitted,
                 fitted_remainder = (case remainder ct of
                                       Drop \<Rightarrow> []
                                     | Passthrough \<Rightarrow> filter (\<lambda>c. c \<notin> set (listed_columns ct)) (columns X))\<rparr>))"

fun transform_blocks :: "(string list \<times> fitted_transformer) list \<Rightarrow> row \<Rightarrow> error + real list" where
  "transform_blocks [] r = Inr []"
| "transform_blocks ((cols, ft) # fts) r =
     bind (transform_row ft (map (cell_of r) cols)) (\<lambda>x.
     bind (transform_blocks fts r) (\<lambda>xs. Inr (x @ xs)))"

fun passthrough :: "string list \<Rightarrow> row \<Rightarrow> error + real list" where
  "passthrough [] r = Inr []"
| "passthrough (c # cs) r =
     (case to_num (cell_of r c) of
        None \<Rightarrow> Inl (ValueError ''could not convert to float'')
      | Some x \<Rightarrow> bind (passthrough cs r) (\<lambda>xs. Inr (x # xs)))"

definition column_transformer_transform :: "fitted_column_transformer \<Rightarrow> row \<Rightarrow> error + real list" where
  "column_transformer_transform f r =
     bind (transform_blocks (fitted_transformers f) r) (\<lambda>x.
     bind (passthrough (fitted_remainder f) r) (\<lambda>xs. Inr (x @ xs)))"

definition n_features_pre :: "fitted_column_transformer \<Rightarrow> nat" where
  "n_features_pre f = sum_list (map (\<lambda>(cols, ft). n_features_out ft) (fitted_transformers f)) + length (fitted_remainder f)"

section \<open>Pipeline and parameter grid (lines 57 to 69)\<close>

text \<open>
  \<^verbatim>\<open>PolynomialFeatures(degree, include_bias)\<close>: the output features are the products of the
  input features over the combinations with replacement of 1 to \<open>degree\<close> positions (and the
  empty product when the bias is included), in the order the library enumerates them.
\<close>

record polynomial_features =
  degree :: nat
  include_bias :: bool

fun combinations_with_replacement :: "'a list \<Rightarrow> nat \<Rightarrow> 'a list list" where
  "combinations_with_replacement xs 0 = [[]]"
| "combinations_with_replacement [] (Suc k) = []"
| "combinations_with_replacement (x # xs) (Suc k) =
     map ((#) x) (combinations_with_replacement (x # xs) k) @ combinations_with_replacement xs (Suc k)"

definition combinations :: "polynomial_features \<Rightarrow> nat \<Rightarrow> nat list list" where
  "combinations pf n_features =
     concat (map (combinations_with_replacement [0..<n_features])
                 [(if include_bias pf then 0 else 1)..<Suc (degree pf)])"

definition poly_transform :: "polynomial_features \<Rightarrow> nat \<Rightarrow> real list \<Rightarrow> real list" where
  "poly_transform pf n_features x = map (\<lambda>c. prod_list (map (\<lambda>i. x ! i) c)) (combinations pf n_features)"

text \<open>
  The names of the output features, from the names given for the input features: a factor
  is written \<^verbatim>\<open>name\<close> or \<^verbatim>\<open>name^exponent\<close>, factors are joined by a space, the empty product
  is \<^verbatim>\<open>1\<close>. The call raises when the number of names given is not the number of features the
  step was fitted on.
\<close>

definition digit :: "nat \<Rightarrow> char" where
  "digit d = ''0123456789'' ! d"

function str_nat :: "nat \<Rightarrow> string" where
  "str_nat n = (if n < 10 then [digit n] else str_nat (n div 10) @ [digit (n mod 10)])"
  by pat_completeness auto
termination
  by (relation "measure id") auto

fun factors :: "nat list \<Rightarrow> (nat \<times> nat) list" where
  "factors [] = []"
| "factors (i # c) =
     (case factors c of
        [] \<Rightarrow> [(i, 1)]
      | (j, e) # fs \<Rightarrow> if j = i then (j, Suc e) # fs else (i, 1) # (j, e) # fs)"

fun join :: "string \<Rightarrow> string list \<Rightarrow> string" where
  "join sep [] = []"
| "join sep [x] = x"
| "join sep (x # y # ys) = x @ sep @ join sep (y # ys)"

definition feature_name :: "string list \<Rightarrow> nat list \<Rightarrow> string" where
  "feature_name input_features c =
     (if c = [] then ''1''
      else join '' '' (map (\<lambda>(i, e). if e = 1 then input_features ! i
                                       else input_features ! i @ ''^'' @ str_nat e) (factors c)))"

definition get_feature_names_out :: "polynomial_features \<Rightarrow> nat \<Rightarrow> string list \<Rightarrow> error + string list" where
  "get_feature_names_out pf n_features_in input_features =
     (if length input_features \<noteq> n_features_in
      then Inl (ValueError ''input_features should have length equal to number of features'')
      else Inr (map (feature_name input_features) (combinations pf n_features_in)))"

text \<open>
  The three estimators. An estimator carries its constructor parameters by name
  (\<^verbatim>\<open>get_params\<close>); these are the defaults of \<^verbatim>\<open>LinearRegression()\<close>, \<^verbatim>\<open>Ridge()\<close> and
  \<^verbatim>\<open>Lasso()\<close>. Plain least squares has no regularization strength.
\<close>

datatype pvalue = P_float real | P_int int | P_bool bool | P_str string | P_none

datatype regressor_kind = LinearRegression | Ridge | Lasso

record regressor =
  kind :: regressor_kind
  params :: "(string \<times> pvalue) list"

fun default_params :: "regressor_kind \<Rightarrow> (string \<times> pvalue) list" where
  "default_params LinearRegression =
     [(''fit_intercept'', P_bool True), (''copy_X'', P_bool True), (''n_jobs'', P_none),
      (''positive'', P_bool False)]"
| "default_params Ridge =
     [(''alpha'', P_float 1), (''fit_intercept'', P_bool True), (''copy_X'', P_bool True),
      (''max_iter'', P_none), (''tol'', P_float (1 / 10000)), (''solver'', P_str ''auto''),
      (''positive'', P_bool False), (''random_state'', P_none)]"
| "default_params Lasso =
     [(''alpha'', P_float 1), (''fit_intercept'', P_bool True), (''precompute'', P_bool False),
      (''copy_X'', P_bool True), (''max_iter'', P_int 1000), (''tol'', P_float (1 / 10000)),
      (''warm_start'', P_bool False), (''positive'', P_bool False), (''random_state'', P_none),
      (''selection'', P_str ''cyclic'')]"

definition new :: "regressor_kind \<Rightarrow> regressor" where
  "new k = \<lparr>kind = k, params = default_params k\<rparr>"

text \<open>\<^verbatim>\<open>key.partition('__')\<close>: the text before the first double underscore, and the text after it if there is one.\<close>

fun partition :: "string \<Rightarrow> string \<times> string option" where
  "partition [] = ([], None)"
| "partition [a] = ([a], None)"
| "partition (a # b # cs) =
     (if a = CHR ''_'' \<and> b = CHR ''_'' then ([], Some cs)
      else (case partition (b # cs) of (h, t) \<Rightarrow> (a # h, t)))"

text \<open>
  \<^verbatim>\<open>estimator.set_params(**params)\<close> on an estimator without sub-estimators: a name that
  is not a constructor parameter raises \<^verbatim>\<open>ValueError\<close> (invalid parameter).
\<close>

fun set_params :: "regressor \<Rightarrow> (string \<times> pvalue) list \<Rightarrow> error + regressor" where
  "set_params r [] = Inr r"
| "set_params r ((key, v) # kvs) =
     (case partition key of
        (name, sub) \<Rightarrow>
          if name \<notin> set (map fst (params r)) then Inl (ValueError (''Invalid parameter '' @ name))
          else if sub \<noteq> None then Inl (NotModelled key)
          else set_params (r\<lparr>params := AList.update name v (params r)\<rparr>) kvs)"

fun poly_set_params :: "polynomial_features \<Rightarrow> (string \<times> pvalue) list \<Rightarrow> error + polynomial_features" where
  "poly_set_params pf [] = Inr pf"
| "poly_set_params pf ((key, v) # kvs) =
     (case partition key of
        (name, sub) \<Rightarrow>
          if name \<notin> set [''degree'', ''interaction_only'', ''include_bias'', ''order'']
          then Inl (ValueError (''Invalid parameter '' @ name))
          else if sub \<noteq> None then Inl (NotModelled key)
          else if name = ''degree'' then
            (case v of
               P_int d \<Rightarrow> if d < 0 then Inl (NotModelled key) else poly_set_params (pf\<lparr>degree := nat d\<rparr>) kvs
             | _ \<Rightarrow> Inl (NotModelled key))
          else if name = ''include_bias'' then
            (case v of
               P_bool b \<Rightarrow> poly_set_params (pf\<lparr>include_bias := b\<rparr>) kvs
             | _ \<Rightarrow> Inl (NotModelled key))
          else Inl (NotModelled key))"

text \<open>
  The pipeline: its named steps in order. A grid value is an estimator for a step or a
  plain parameter value.
\<close>

datatype step = Preprocessor column_transformer | Poly polynomial_features | Model regressor

type_synonym pipeline = "(string \<times> step) list"

datatype gvalue = Est step | Val pvalue

definition pipeline :: "column_transformer \<Rightarrow> pipeline" where
  "pipeline pre =
     [(''preprocessor'', Preprocessor pre),
      (''poly_features'', Poly \<lparr>degree = 2, include_bias = False\<rparr>),
      (''model'', Model (new LinearRegression))]"

definition param_grid :: "(string \<times> gvalue list) list" where
  "param_grid =
     [(''poly_features__degree'', [Val (P_int 1), Val (P_int 2), Val (P_int 3)]),
      (''model'', [Est (Model (new LinearRegression)), Est (Model (new Ridge)), Est (Model (new Lasso))]),
      (''model__alpha'', [Val (P_float (1 / 10)), Val (P_float 1), Val (P_float 10)])]"

text \<open>
  \<^verbatim>\<open>ParameterGrid\<close>: the candidates are the cross product of the value lists, the keys
  taken in sorted order and the last key varying fastest.
\<close>

definition parameter_grid :: "(string \<times> gvalue list) list \<Rightarrow> error + (string \<times> gvalue) list list" where
  "parameter_grid grid =
     (let items = sort_key fst grid in
      if list_ex (\<lambda>(k, vs). vs = []) items
      then Inl (ValueError ''Parameter grid needs a non-empty sequence'')
      else Inr (map (zip (map fst items)) (product_lists (map snd items))))"

text \<open>
  \<^verbatim>\<open>Pipeline.set_params(**params)\<close>, in the library's order: first the steps named
  without a double underscore are replaced; then every remaining key is split at its first
  double underscore and its prefix must name a step (\<^verbatim>\<open>ValueError\<close> otherwise); last, each
  step addressed gets its own \<^verbatim>\<open>set_params\<close> with the parameters collected for it.
  Parameters of the pipeline itself and of the column transformer are not covered here.
\<close>

fun replace_steps :: "pipeline \<Rightarrow> (string \<times> gvalue) list \<Rightarrow> error + pipeline \<times> (string \<times> gvalue) list" where
  "replace_steps pipe [] = Inr (pipe, [])"
| "replace_steps pipe ((key, v) # kvs) =
     (if snd (partition key) = None \<and> key \<in> set (map fst pipe) then
        (case v of
           Est s \<Rightarrow> replace_steps (AList.update key s pipe) kvs
         | Val _ \<Rightarrow> Inl (NotModelled key))
      else bind (replace_steps pipe kvs) (\<lambda>(pipe', rest). Inr (pipe', (key, v) # rest)))"

fun nested_params :: "pipeline \<Rightarrow> (string \<times> gvalue) list \<Rightarrow> error + (string \<times> (string \<times> gvalue) list) list" where
  "nested_params pipe [] = Inr []"
| "nested_params pipe ((key, v) # kvs) =
     (case partition key of
        (name, sub) \<Rightarrow>
          if name \<notin> set (map fst pipe) then
            (if name \<in> set [''steps'', ''memory'', ''verbose''] then Inl (NotModelled key)
             else Inl (ValueError (''Invalid parameter '' @ name)))
          else (case sub of
                  None \<Rightarrow> Inl (NotModelled key)
                | Some sub_key \<Rightarrow>
                    bind (nested_params pipe kvs) (\<lambda>nested.
                      Inr (case map_of nested name of
                             None \<Rightarrow> (name, [(sub_key, v)]) # nested
                           | Some ps \<Rightarrow> (name, (sub_key, v) # ps) # AList.delete name nested))))"

fun plain :: "(string \<times> gvalue) list \<Rightarrow> error + (string \<times> pvalue) list" where
  "plain [] = Inr []"
| "plain ((k, Val v) # kvs) = bind (plain kvs) (\<lambda>ps. Inr ((k, v) # ps))"
| "plain ((k, Est s) # kvs) = Inl (NotModelled k)"

fun step_set_params :: "step \<Rightarrow> (string \<times> gvalue) list \<Rightarrow> error + step" where
  "step_set_params (Model r) kvs = bind (plain kvs) (\<lambda>ps. bind (set_params r ps) (\<lambda>r'. Inr (Model r')))"
| "step_set_params (Poly pf) kvs = bind (plain kvs) (\<lambda>ps. bind (poly_set_params pf ps) (\<lambda>pf'. Inr (Poly pf')))"
| "step_set_params (Preprocessor ct) kvs = Inl (NotModelled ''preprocessor'')"

fun apply_nested :: "pipeline \<Rightarrow> (string \<times> (string \<times> gvalue) list) list \<Rightarrow> error + pipeline" where
  "apply_nested pipe [] = Inr pipe"
| "apply_nested pipe ((name, ps) # rest) =
     (case map_of pipe name of
        None \<Rightarrow> Inl (ValueError (''Invalid parameter '' @ name))
      | Some s \<Rightarrow> bind (step_set_params s ps) (\<lambda>s'. apply_nested (AList.update name s' pipe) rest))"

definition pipeline_set_params :: "pipeline \<Rightarrow> (string \<times> gvalue) list \<Rightarrow> error + pipeline" where
  "pipeline_set_params pipe kvs =
     bind (replace_steps pipe kvs) (\<lambda>(pipe', rest).
     bind (nested_params pipe' rest) (\<lambda>nested.
     apply_nested pipe' nested))"

section \<open>Model search (lines 76 to 82)\<close>

text \<open>
  A fitted pipeline. The numerical fitting of a linear estimator (least squares, ridge,
  coordinate descent for the lasso) is the library's: \<open>solve\<close>, a parameter, gives the
  coefficients and the intercept for an estimator, a feature matrix and the targets.
\<close>

record fitted_pipeline =
  fitted_preprocessor :: fitted_column_transformer
  fitted_poly :: polynomial_features
  n_features_in :: nat
  fitted_model :: regressor
  coef :: "real list"
  intercept :: real

type_synonym solver = "regressor \<Rightarrow> real list list \<Rightarrow> real list \<Rightarrow> real list \<times> real"

definition targets :: "series \<Rightarrow> error + real list" where
  "targets y =
     (if list_ex (\<lambda>c. to_num c = None) (s_cells y) then Inl (ValueError ''Input y contains NaN'')
      else Inr (observed (map to_num (s_cells y))))"

definition pipeline_fit :: "solver \<Rightarrow> pipeline \<Rightarrow> dataframe \<Rightarrow> series \<Rightarrow> error + fitted_pipeline" where
  "pipeline_fit solve pipe X y =
     (case pipe of
        [(n1, Preprocessor ct), (n2, Poly pf), (n3, Model r)] \<Rightarrow>
          bind (column_transformer_fit ct X) (\<lambda>fct.
          bind (sequence (map (column_transformer_transform fct) (rows X))) (\<lambda>Xt.
            if rows X = [] \<or> n_features_pre fct = 0 then Inl (ValueError ''Found array with 0 samples or features'')
            else
              bind (targets y) (\<lambda>ys.
                (case solve r (map (poly_transform pf (n_features_pre fct)) Xt) ys of
                   (w, b) \<Rightarrow>
                     Inr \<lparr>fitted_preprocessor = fct, fitted_poly = pf, n_features_in = n_features_pre fct,
                          fitted_model = r, coef = w, intercept = b\<rparr>))))
      | _ \<Rightarrow> Inl (NotModelled ''pipeline''))"

definition predict_row :: "fitted_pipeline \<Rightarrow> row \<Rightarrow> error + real" where
  "predict_row f r =
     bind (column_transformer_transform (fitted_preprocessor f) r) (\<lambda>xt.
       (let xp = poly_transform (fitted_poly f) (n_features_in f) xt in
        if length xt \<noteq> n_features_in f \<or> length xp \<noteq> length (coef f)
        then Inl (ValueError ''shapes not aligned'')
        else Inr (sum_list (map (\<lambda>(w, x). w * x) (zip (coef f) xp)) + intercept f)))"

definition predict :: "fitted_pipeline \<Rightarrow> dataframe \<Rightarrow> error + real list" where
  "predict f X = sequence (map (predict_row f) (rows X))"

text \<open>
  \<^verbatim>\<open>r2_score\<close>: undefined (not a number, here \<open>None\<close>) on fewer than two samples;
  with constant targets it is 1 for a perfect prediction and 0 otherwise.
\<close>

definition r2_score :: "real list \<Rightarrow> real list \<Rightarrow> real option" where
  "r2_score y_true y_pred =
     (if length y_true < 2 \<or> length y_true \<noteq> length y_pred then None
      else
        (let numerator = sum_list (map (\<lambda>(y, p). (y - p)\<^sup>2) (zip y_true y_pred));
             denominator = sum_list (map (\<lambda>y. (y - mean y_true)\<^sup>2) y_true)
         in if denominator \<noteq> 0 then Some (1 - numerator / denominator)
            else if numerator \<noteq> 0 then Some 0
            else Some 1))"

text \<open>
  \<^verbatim>\<open>KFold(n_splits)\<close> without shuffling: consecutive folds, the first \<open>n mod n_splits\<close> of
  them one row longer; each fold is the test part once, the other rows are the training part.
\<close>

fun kfold_from :: "nat \<Rightarrow> nat list \<Rightarrow> nat \<Rightarrow> (nat list \<times> nat list) list" where
  "kfold_from start [] n = []"
| "kfold_from start (fold_size # sizes) n =
     ([0..<start] @ [start + fold_size..<n], [start..<start + fold_size])
     # kfold_from (start + fold_size) sizes n"

definition kfold :: "nat \<Rightarrow> nat \<Rightarrow> error + (nat list \<times> nat list) list" where
  "kfold n_splits n =
     (if n_splits > n then Inl (ValueError ''Cannot have number of splits greater than the number of samples'')
      else Inr (kfold_from 0 (map (\<lambda>i. n div n_splits + (if i < n mod n_splits then 1 else 0)) [0..<n_splits]) n))"

text \<open>
  One cell of the search on one fold (\<^verbatim>\<open>_fit_and_score\<close>): the candidate's parameters are
  set on a copy of the pipeline, outside the guarded part, so an invalid parameter ends
  the whole search; a failure of the fit or of the scoring is recorded as a score that is
  not a number (\<^verbatim>\<open>error_score=nan\<close>).
\<close>

datatype fold_result = Fit_failed | Score_failed | Scored real

definition score :: "fitted_pipeline \<Rightarrow> dataframe \<Rightarrow> series \<Rightarrow> fold_result" where
  "score f X y =
     (case (predict f X, targets y) of
        (Inr y_pred, Inr y_true) \<Rightarrow>
          (case r2_score y_true y_pred of None \<Rightarrow> Score_failed | Some s \<Rightarrow> Scored s)
      | _ \<Rightarrow> Score_failed)"

definition fit_and_score ::
  "solver \<Rightarrow> pipeline \<Rightarrow> (string \<times> gvalue) list \<Rightarrow> dataframe \<Rightarrow> series \<Rightarrow> nat list \<times> nat list
     \<Rightarrow> error + fold_result" where
  "fit_and_score solve pipe parameters X y train_test =
     bind (pipeline_set_params pipe parameters) (\<lambda>estimator.
     bind (iloc X (fst train_test)) (\<lambda>X_train.
     bind (s_iloc y (fst train_test)) (\<lambda>y_train.
     bind (iloc X (snd train_test)) (\<lambda>X_test.
     bind (s_iloc y (snd train_test)) (\<lambda>y_test.
       Inr (case pipeline_fit solve estimator X_train y_train of
              Inl e \<Rightarrow> Fit_failed
            | Inr f \<Rightarrow> score f X_test y_test))))))"

text \<open>
  The mean validation score of a candidate (not a number as soon as one fold has none), and
  the best candidate: the first one of maximal mean, a mean that is not a number ranking
  with the worst.
\<close>

definition mean_test_score :: "fold_result list \<Rightarrow> real option" where
  "mean_test_score rs =
     (if list_all (\<lambda>r. case r of Scored s \<Rightarrow> True | _ \<Rightarrow> False) rs
      then Some (mean (concat (map (\<lambda>r. case r of Scored s \<Rightarrow> [s] | _ \<Rightarrow> []) rs)))
      else None)"

fun best_index_from :: "nat \<Rightarrow> nat \<Rightarrow> real option \<Rightarrow> real option list \<Rightarrow> nat" where
  "best_index_from best i m [] = best"
| "best_index_from best i m (x # xs) =
     (case (m, x) of
        (_, None) \<Rightarrow> best_index_from best (Suc i) m xs
      | (None, Some s) \<Rightarrow> best_index_from i (Suc i) (Some s) xs
      | (Some b, Some s) \<Rightarrow>
          if b < s then best_index_from i (Suc i) (Some s) xs
          else best_index_from best (Suc i) m xs)"

definition best_index :: "real option list \<Rightarrow> nat" where
  "best_index means = best_index_from 0 0 None means"

text \<open>
  \<^verbatim>\<open>GridSearchCV(pipeline, param_grid, cv, scoring='r2').fit(X, y)\<close>: every candidate is
  evaluated on every fold, the candidate of best mean score is refitted on all of \<open>X\<close> and
  \<open>y\<close>. The result is \<^verbatim>\<open>best_params_\<close> and \<^verbatim>\<open>best_estimator_\<close>.
\<close>

definition grid_search_fit ::
  "solver \<Rightarrow> pipeline \<Rightarrow> (string \<times> gvalue list) list \<Rightarrow> nat \<Rightarrow> dataframe \<Rightarrow> series
     \<Rightarrow> error + (string \<times> gvalue) list \<times> fitted_pipeline" where
  "grid_search_fit solve pipe grid cv X y =
     bind (parameter_grid grid) (\<lambda>candidates.
     bind (kfold cv (length (rows X))) (\<lambda>folds.
     bind (sequence (map (\<lambda>parameters. sequence (map (fit_and_score solve pipe parameters X y) folds))
                         candidates)) (\<lambda>results.
       if list_all (list_all (\<lambda>r. r = Fit_failed)) results
       then Inl (ValueError ''All the fits failed'')
       else
         (let best_params = candidates ! best_index (map mean_test_score results) in
          bind (pipeline_set_params pipe best_params) (\<lambda>estimator.
          bind (pipeline_fit solve estimator X y) (\<lambda>best_estimator.
            Inr (best_params, best_estimator)))))))"

section \<open>Evaluator and reporter (lines 84 to 110)\<close>

definition mean_squared_error :: "real list \<Rightarrow> real list \<Rightarrow> error + real" where
  "mean_squared_error y_true y_pred =
     (if length y_true \<noteq> length y_pred \<or> y_true = []
      then Inl (ValueError ''inconsistent numbers of samples'')
      else Inr (sum_list (map (\<lambda>(y, p). (y - p)\<^sup>2) (zip y_true y_pred)) / real (length y_true)))"

definition mean_absolute_error :: "real list \<Rightarrow> real list \<Rightarrow> error + real" where
  "mean_absolute_error y_true y_pred =
     (if length y_true \<noteq> length y_pred \<or> y_true = []
      then Inl (ValueError ''inconsistent numbers of samples'')
      else Inr (sum_list (map (\<lambda>(y, p). \<bar>y - p\<bar>) (zip y_true y_pred)) / real (length y_true)))"

text \<open>Lines 85 to 88: the predictions for the test rows and the three metrics against the test targets.\<close>

definition evaluate :: "fitted_pipeline \<Rightarrow> dataframe \<Rightarrow> series \<Rightarrow> error + real list \<times> real \<times> real \<times> real option" where
  "evaluate best_model X_test y_test =
     bind (predict best_model X_test) (\<lambda>y_pred.
     bind (targets y_test) (\<lambda>y_true.
     bind (mean_squared_error y_true y_pred) (\<lambda>mse.
     bind (mean_absolute_error y_true y_pred) (\<lambda>mae.
       Inr (y_pred, mse, mae, r2_score y_true y_pred)))))"

text \<open>
  Lines 106 to 110. Every linear estimator has coefficients once fitted, so the branch is
  taken. \<^verbatim>\<open>pd.DataFrame({'feature': names, 'importance': coefficients})\<close> raises when the
  two columns differ in length; \<^verbatim>\<open>sort_values(by='importance', ascending=False)\<close> orders the
  rows by decreasing importance.
\<close>

definition importance_frame :: "string list \<Rightarrow> real list \<Rightarrow> error + (string \<times> real) list" where
  "importance_frame names importance =
     (if length names \<noteq> length importance then Inl (ValueError ''All arrays must be of the same length'')
      else Inr (zip names importance))"

definition sort_values :: "(string \<times> real) list \<Rightarrow> (string \<times> real) list" where
  "sort_values df = sort_key (\<lambda>(name, importance). - importance) df"

definition feature_importance_df :: "fitted_pipeline \<Rightarrow> string list \<Rightarrow> error + (string \<times> real) list" where
  "feature_importance_df best_model num =
     bind (get_feature_names_out (fitted_poly best_model) (n_features_in best_model) num) (\<lambda>feature_names.
     bind (importance_frame feature_names (coef best_model)) (\<lambda>df.
       Inr (sort_values df)))"

section \<open>Prediction column (lines 125 to 127)\<close>

text \<open>
  \<^verbatim>\<open>data.set_index(name, inplace=True)\<close>: the cells of the column become the row labels and
  the column leaves the frame.
\<close>

definition set_index :: "string \<Rightarrow> dataframe \<Rightarrow> error + dataframe" where
  "set_index name df =
     (if name \<in> set (columns df)
      then Inr (df\<lparr>index := map (\<lambda>r. Key (cell_of r name)) (rows df),
                   dtypes := AList.delete name (dtypes df),
                   rows := map (AList.delete name) (rows df)\<rparr>)
      else Inl (KeyError name))"

text \<open>
  \<^verbatim>\<open>data.loc[labels, name] = cells\<close> with a list of labels: every label must be a row
  label of the frame (\<^verbatim>\<open>KeyError\<close> otherwise); the rows carrying the labels, taken label by
  label, receive the cells in order, and the numbers of rows and of cells must agree.
  The column is one of the frame (the script has just created it).
\<close>

definition positions :: "label list \<Rightarrow> label \<Rightarrow> nat list" where
  "positions idx l = filter (\<lambda>i. idx ! i = l) [0..<length idx]"

fun assign_cells :: "string \<Rightarrow> (nat \<times> cell) list \<Rightarrow> row list \<Rightarrow> row list" where
  "assign_cells name [] rs = rs"
| "assign_cells name ((i, v) # ivs) rs = assign_cells name ivs (rs[i := AList.update name v (rs ! i)])"

definition loc_set :: "label list \<Rightarrow> string \<Rightarrow> cell list \<Rightarrow> dataframe \<Rightarrow> error + dataframe" where
  "loc_set labels name cells df =
     (if list_ex (\<lambda>l. l \<notin> set (index df)) labels then Inl (KeyError ''labels not in index'')
      else if name \<notin> set (columns df) then Inl (NotModelled name)
      else
        (let targets_at = concat (map (positions (index df)) labels) in
         if length targets_at \<noteq> length cells
         then Inl (ValueError ''Must have equal len keys and value when setting with an iterable'')
         else Inr (df\<lparr>rows := assign_cells name (zip targets_at cells) (rows df)\<rparr>)))"

definition merge_predictions :: "dataframe \<Rightarrow> label list \<Rightarrow> real list \<Rightarrow> error + dataframe" where
  "merge_predictions data test_index y_pred =
     bind (set_index ''timestamp'' data) (\<lambda>data.
       loc_set test_index ''predicted_consumption'' (map Float y_pred)
         (setitem ''predicted_consumption'' Float64 (map (\<lambda>r. NaN) (rows data)) data))"

section \<open>The script, stage by stage\<close>

text \<open>
  Lines 31 to 82 on the dataset the feature deriver leaves: the feature names, the two
  column groups, the pipeline, the split with the script's test size and seed, and the
  search on the training part. The grid is a parameter; the script passes \<open>param_grid\<close>.
\<close>

definition model_search ::
  "solver \<Rightarrow> (nat \<Rightarrow> nat \<Rightarrow> nat list) \<Rightarrow> (string \<times> gvalue list) list \<Rightarrow> dataframe
     \<Rightarrow> error + (string \<times> gvalue) list \<times> fitted_pipeline" where
  "model_search solve rng grid data =
     bind (features data) (\<lambda>feature_names.
     bind (num_cols data) (\<lambda>num.
     bind (getitems data feature_names) (\<lambda>X.
     bind (getseries data target) (\<lambda>y.
     bind (train_test_split rng X y (2 / 10) 42) (\<lambda>(X_train, X_test, y_train, y_test).
       grid_search_fit solve (pipeline (preprocessor num (cat_cols data))) grid 5 X_train y_train)))))"

text \<open>Lines 15 to 82: from the records of the file to the result of the search.\<close>

definition script ::
  "solver \<Rightarrow> (nat \<Rightarrow> nat \<Rightarrow> nat list) \<Rightarrow> (cell \<Rightarrow> timestamp option) \<Rightarrow> dtype \<Rightarrow> (string \<times> gvalue list) list
     \<Rightarrow> string list \<Rightarrow> row list \<Rightarrow> error + (string \<times> gvalue) list \<times> fitted_pipeline" where
  "script solve rng parse idt grid names records =
     bind (feature_deriver parse idt (read_csv names records)) (model_search solve rng grid)"


text \<open>Two frames that differ at most in the cells of one column.\<close>

definition agree_except :: "string \<Rightarrow> dataframe \<Rightarrow> dataframe \<Rightarrow> bool" where
  "agree_except c X X' \<longleftrightarrow>
     index X' = index X \<and> dtypes X' = dtypes X \<and>
     list_all2 (\<lambda>r r'. \<forall>c'. c' \<noteq> c \<longrightarrow> cell_of r' c' = cell_of r c') (rows X) (rows X')"

section \<open>Example data\<close>

text \<open>
  A small table as the loader could return it: six rows, the third with a timestamp that
  does not parse. The conversion of a timestamp cell is given for the cells of the table.
\<close>

definition at_hour :: "int \<Rightarrow> timestamp" where
  "at_hour h = \<lparr>year = 2017, month = 1, day = 2, hour = h, minute = 0, second = 0\<rparr>"

definition example_parse :: "cell \<Rightarrow> timestamp option" where
  "example_parse c =
     (if c = Str ''2017-01-02 00:00:00'' then Some (at_hour 0)
      else if c = Str ''2017-01-02 01:00:00'' then Some (at_hour 1)
      else if c = Str ''2017-01-02 02:00:00'' then Some (at_hour 2)
      else if c = Str ''2017-01-02 03:00:00'' then Some (at_hour 3)
      else if c = Str ''2017-01-02 04:00:00'' then Some (at_hour 4)
      else if c = Str ''2017-01-02 05:00:00'' then Some (at_hour 5)
      else if c = Str ''2017-01-02 06:00:00'' then Some (at_hour 6)
      else None)"

definition raw_example :: dataframe where
  "raw_example =
     \<lparr>index = [RowNo 0, RowNo 1, RowNo 2, RowNo 3, RowNo 4, RowNo 5],
      dtypes = [(''timestamp'', Object), (''consumption'', Float64), (''site'', Object), (''holiday'', Bool)],
      rows =
        [[(''timestamp'', Str ''2017-01-02 00:00:00''), (''consumption'', Float 10), (''site'', Str ''a''), (''holiday'', Boolean False)],
         [(''timestamp'', Str ''2017-01-02 01:00:00''), (''consumption'', Float 12), (''site'', Str ''b''), (''holiday'', Boolean False)],
         [(''timestamp'', Str ''yesterday''), (''consumption'', Float 11), (''site'', Str ''a''), (''holiday'', Boolean True)],
         [(''timestamp'', Str ''2017-01-02 02:00:00''), (''consumption'', Float 14), (''site'', Str ''a''), (''holiday'', Boolean False)],
         [(''timestamp'', Str ''2017-01-02 03:00:00''), (''consumption'', Float 13), (''site'', Str ''b''), (''holiday'', Boolean True)],
         [(''timestamp'', Str ''2017-01-02 04:00:00''), (''consumption'', Float 15), (''site'', Str ''a''), (''holiday'', Boolean False)]]\<rparr>"

text \<open>The dataset the feature deriver makes of the table, and a generator whose permutation of \<open>0..<n\<close> is the reversal.\<close>

definition example_data :: dataframe where
  "example_data =
     \<lparr>index = [RowNo 0, RowNo 1, RowNo 3, RowNo 4, RowNo 5],
      dtypes = [(''timestamp'', Datetime64), (''consumption'', Float64), (''site'', Object), (''holiday'', Bool),
                (''year'', Int64), (''month'', Int64), (''day'', Int64), (''hour'', Int64), (''dayofweek'', Int64)],
      rows =
        [[(''timestamp'', Time (at_hour 0)), (''consumption'', Float 10), (''site'', Str ''a''), (''holiday'', Boolean False),
          (''year'', Integer 2017), (''month'', Integer 1), (''day'', Integer 2), (''hour'', Integer 0), (''dayofweek'', Integer 0)],
         [(''timestamp'', Time (at_hour 1)), (''consumption'', Float 12), (''site'', Str ''b''), (''holiday'', Boolean False),
          (''year'', Integer 2017), (''month'', Integer 1), (''day'', Integer 2), (''hour'', Integer 1), (''dayofweek'', Integer 0)],
         [(''timestamp'', Time (at_hour 2)), (''consumption'', Float 14), (''site'', Str ''a''), (''holiday'', Boolean False),
          (''year'', Integer 2017), (''month'', Integer 1), (''day'', Integer 2), (''hour'', Integer 2), (''dayofweek'', Integer 0)],
         [(''timestamp'', Time (at_hour 3)), (''consumption'', Float 13), (''site'', Str ''b''), (''holiday'', Boolean True),
          (''year'', Integer 2017), (''month'', Integer 1), (''day'', Integer 2), (''hour'', Integer 3), (''dayofweek'', Integer 0)],
         [(''timestamp'', Time (at_hour 4)), (''consumption'', Float 15), (''site'', Str ''a''), (''holiday'', Boolean False),
          (''year'', Integer 2017), (''month'', Integer 1), (''day'', Integer 2), (''hour'', Integer 4), (''dayofweek'', Integer 0)]]\<rparr>"

definition example_rng :: "nat \<Rightarrow> nat \<Rightarrow> nat list" where
  "example_rng random_state n = rev [0..<n]"

text \<open>
  A fitted pipeline written out by hand: the hour is the only input (median 2, mean 2,
  scale 1), the expansion has degree 1, the coefficient is 1 and the intercept 11. And a
  second dataset, the first one with another last row.
\<close>

definition example_model :: fitted_pipeline where
  "example_model =
     \<lparr>fitted_preprocessor = \<lparr>fitted_transformers = [([''hour''], Fitted_scale [Some (2, 2, 1)])],
                              fitted_remainder = []\<rparr>,
      fitted_poly = \<lparr>degree = 1, include_bias = False\<rparr>,
      n_features_in = 1,
      fitted_model = new Ridge,
      coef = [1],
      intercept = 11\<rparr>"

definition example_data2 :: dataframe where
  "example_data2 =
     example_data\<lparr>rows := (rows example_data)
       [4 := [(''timestamp'', Time (at_hour 4)), (''consumption'', Float 99), (''site'', Str ''c''), (''holiday'', Boolean True),
              (''year'', Integer 2017), (''month'', Integer 1), (''day'', Integer 2), (''hour'', Integer 4), (''dayofweek'', Integer 0)]]\<rparr>"

text \<open>
  A file of seven records, one for each of seven hours, all of them parsable; the
  consumption, the site and the holiday cell of the last record are left open. With the
  reversing generator the last two records are the test part. And the dataset the feature
  deriver makes of the loaded file, given the dtype the loader infers for the holiday column.
\<close>

definition week_names :: "string list" where
  "week_names = [''timestamp'', ''consumption'', ''site'', ''holiday'']"

definition week_record :: "string \<Rightarrow> real \<Rightarrow> string \<Rightarrow> cell \<Rightarrow> row" where
  "week_record stamp c s h =
     [(''timestamp'', Str stamp), (''consumption'', Float c), (''site'', Str s), (''holiday'', h)]"

definition week_records :: "real \<Rightarrow> string \<Rightarrow> cell \<Rightarrow> row list" where
  "week_records c s h =
     [week_record ''2017-01-02 00:00:00'' 10 ''a'' (Boolean False),
      week_record ''2017-01-02 01:00:00'' 12 ''b'' (Boolean False),
      week_record ''2017-01-02 02:00:00'' 14 ''a'' (Boolean False),
      week_record ''2017-01-02 03:00:00'' 13 ''b'' (Boolean True),
      week_record ''2017-01-02 04:00:00'' 15 ''a'' (Boolean False),
      week_record ''2017-01-02 05:00:00'' 13 ''b'' (Boolean False),
      week_record ''2017-01-02 06:00:00'' c s h]"

definition derived_row :: "int \<Rightarrow> real \<Rightarrow> string \<Rightarrow> cell \<Rightarrow> row" where
  "derived_row h c s hol =
     [(''timestamp'', Time (at_hour h)), (''consumption'', Float c), (''site'', Str s), (''holiday'', hol),
      (''year'', Integer 2017), (''month'', Integer 1), (''day'', Integer 2), (''hour'', Integer h),
      (''dayofweek'', Integer 0)]"

definition week_data :: "dtype \<Rightarrow> real \<Rightarrow> string \<Rightarrow> cell \<Rightarrow> dataframe" where
  "week_data holiday_dtype c s h =
     \<lparr>index = [RowNo 0, RowNo 1, RowNo 2, RowNo 3, RowNo 4, RowNo 5, RowNo 6],
      dtypes = [(''timestamp'', Datetime64), (''consumption'', Float64), (''site'', Object),
                (''holiday'', holiday_dtype),
                (''year'', Int64), (''month'', Int64), (''day'', Int64), (''hour'', Int64), (''dayofweek'', Int64)],
      rows =
        [derived_row 0 10 ''a'' (Boolean False),
         derived_row 1 12 ''b'' (Boolean False),
         derived_row 2 14 ''a'' (Boolean False),
         derived_row 3 13 ''b'' (Boolean True),
         derived_row 4 15 ''a'' (Boolean False),
         derived_row 5 13 ''b'' (Boolean False),
         derived_row 6 c s h]\<rparr>"

text \<open>
  What the split makes of that dataset with the reversing generator: the records 4 down to 0
  are the training part, the records 6 and 5 the test part.
\<close>

definition feature_row :: "int \<Rightarrow> string \<Rightarrow> cell \<Rightarrow> row" where
  "feature_row h s hol =
     [(''site'', Str s), (''holiday'', hol), (''year'', Integer 2017), (''month'', Integer 1),
      (''day'', Integer 2), (''hour'', Integer h), (''dayofweek'', Integer 0)]"

definition week_train :: "dtype \<Rightarrow> dataframe" where
  "week_train holiday_dtype =
     \<lparr>index = [RowNo 4, RowNo 3, RowNo 2, RowNo 1, RowNo 0],
      dtypes = [(''site'', Object), (''holiday'', holiday_dtype),
                (''year'', Int64), (''month'', Int64), (''day'', Int64), (''hour'', Int64), (''dayofweek'', Int64)],
      rows = [feature_row 4 ''a'' (Boolean False), feature_row 3 ''b'' (Boolean True),
              feature_row 2 ''a'' (Boolean False), feature_row 1 ''b'' (Boolean False),
              feature_row 0 ''a'' (Boolean False)]\<rparr>"

definition week_test :: "dtype \<Rightarrow> string \<Rightarrow> cell \<Rightarrow> dataframe" where
  "week_test holiday_dtype s h =
     \<lparr>index = [RowNo 6, RowNo 5],
      dtypes = [(''site'', Object), (''holiday'', holiday_dtype),
                (''year'', Int64), (''month'', Int64), (''day'', Int64), (''hour'', Int64), (''dayofweek'', Int64)],
      rows = [feature_row 6 s h, feature_row 5 ''b'' (Boolean False)]\<rparr>"

definition week_train_targets :: series where
  "week_train_targets =
     \<lparr>s_index = [RowNo 4, RowNo 3, RowNo 2, RowNo 1, RowNo 0], s_dtype = Float64,
      s_cells = [Float 15, Float 13, Float 14, Float 12, Float 10]\<rparr>"

definition week_test_targets :: "real \<Rightarrow> series" where
  "week_test_targets c = \<lparr>s_index = [RowNo 6, RowNo 5], s_dtype = Float64, s_cells = [Float c, Float 13]\<rparr>"

text \<open>A grid on which the search gets through: the script's grid without the plain least-squares estimator.\<close>

definition example_grid :: "(string \<times> gvalue list) list" where
  "example_grid =
     [(''poly_features__degree'', [Val (P_int 1), Val (P_int 2), Val (P_int 3)]),
      (''model'', [Est (Model (new Ridge)), Est (Model (new Lasso))]),
      (''model__alpha'', [Val (P_float (1 / 10)), Val (P_float 1), Val (P_float 10)])]"

section \<open>Properties\<close>

subsection \<open>Failure propagation\<close>

lemma bind_Inl [simp]: "bind (Inl e) f = Inl e"
  by (simp add: bind_def)

lemma bind_Inr [simp]: "bind (Inr x) f = f x"
  by (simp add: bind_def)

lemma bind_eq_Inr: "bind m f = Inr y \<longleftrightarrow> (\<exists>x. m = Inr x \<and> f x = Inr y)"
  by (cases m) auto

lemma filter_Cons_member: "filter P xs = y # ys \<Longrightarrow> y \<in> set xs \<and> P y"
proof -
  assume "filter P xs = y # ys"
  then have "y \<in> set (filter P xs)"
    by simp
  then show ?thesis
    by simp
qed

lemma bind_Inr_right: "bind m Inr = m"
  by (cases m) simp_all

lemma sequence_Inr_all2: "sequence ms = Inr xs \<Longrightarrow> list_all2 (\<lambda>m x. m = Inr x) ms xs"
proof (induction ms arbitrary: xs)
  case Nil
  then show ?case by simp
next
  case (Cons m ms)
  then obtain x xs' where "m = Inr x" "sequence ms = Inr xs'" "xs = x # xs'"
    by (cases m; cases "sequence ms") auto
  then show ?case
    using Cons.IH by simp
qed

lemma all2_sequence_Inr: "list_all2 (\<lambda>m x. m = Inr x) ms xs \<Longrightarrow> sequence ms = Inr xs"
  by (induction rule: list_all2_induct) simp_all

lemma sequence_map_Inr: "sequence (map f xs) = Inr ys \<longleftrightarrow> list_all2 (\<lambda>x y. f x = Inr y) xs ys"
  using sequence_Inr_all2[of "map f xs" ys] all2_sequence_Inr[of "map f xs" ys]
  by (auto simp: list_all2_map1)

lemma sequence_Inr:
  "list_all (\<lambda>m. \<exists>x. m = Inr x) ms \<Longrightarrow> \<exists>xs. sequence ms = Inr xs"
  by (induction ms) auto

subsection \<open>Feature deriver\<close>


lemma setitem_index: "index (setitem name t cells df) = index df"
  by (simp add: setitem_def)



lemma cell_of_update: "cell_of (AList.update k v r) c = (if c = k then v else cell_of r c)"
  by (simp add: cell_of_def update_conv')













lemma example_data_derived: "feature_deriver example_parse Int64 raw_example = Inr example_data"
  by (simp add: feature_deriver_def getitem_def columns_def raw_example_def to_datetime_def cell_of_def
      example_parse_def setitem_def dropna_def isna_def assign_dt_def dt_def example_data_def at_hour_def
      dayofweek_def days_from_civil_def)

subsection \<open>Fitting and applying the preprocessing transformer\<close>

lemma fold_max_ge: "a \<le> fold max ys (a::nat)"
  by (induction ys arbitrary: a) (auto intro: order_trans[OF max.cobounded2])

lemma fold_max_mem: "fold max ys (a::nat) = a \<or> fold max ys a \<in> set ys"
proof (induction ys arbitrary: a)
  case Nil
  then show ?case by simp
next
  case (Cons y ys)
  show ?case
    using Cons.IH[of "max y a"] by (auto simp: max_def split: if_splits)
qed

lemma fold_max_upper: "y \<in> set ys \<Longrightarrow> y \<le> fold max ys (a::nat)"
proof (induction ys arbitrary: a)
  case Nil
  then show ?case by simp
next
  case (Cons z ys)
  then show ?case
    using fold_max_ge[of "max z a" ys] by auto
qed

lemma most_frequent_count:
  assumes "xs \<noteq> []"
  shows "\<exists>x\<in>set xs. count_list xs x = fold max (map (count_list xs) xs) 0"
proof -
  let ?m = "fold max (map (count_list xs) xs) 0"
  obtain x where x: "x \<in> set xs"
    using assms by (cases xs) auto
  then have "0 < count_list xs x"
    using count_list_0_iff[of xs x] by auto
  moreover have "count_list xs x \<le> ?m"
    using x by (intro fold_max_upper) simp
  ultimately have "?m \<noteq> 0"
    by simp
  then have "?m \<in> set (map (count_list xs) xs)"
    using fold_max_mem[of "map (count_list xs) xs" 0] by auto
  then show ?thesis
    by auto
qed

lemma set_observed: "set (observed col) = {x. Some x \<in> set col}"
  by (induction col) (auto split: option.splits)

lemma observed_map_Nil: "observed (map f cs) = [] \<longleftrightarrow> (\<forall>c\<in>set cs. f c = None)"
  by (induction cs) (auto split: option.splits)

lemma set_imputed:
  "m \<in> set (observed (map f col)) \<Longrightarrow>
     set (map (\<lambda>c. case f c of None \<Rightarrow> m | Some k \<Rightarrow> k) col) = set (observed (map f col))"
  by (force simp: set_observed split: option.splits)

lemma same_kind_subset: "same_kind ys \<Longrightarrow> set xs \<subseteq> set ys \<Longrightarrow> same_kind xs"
  unfolding same_kind_def list_all_iff by blast

lemma sort_categories_ok: "(\<exists>cs. sort_categories xs = Inr cs) \<longleftrightarrow> same_kind xs"
  by (auto simp: sort_categories_def same_kind_def)

lemma sort_categories_Inr: "sort_categories xs = Inr cs \<Longrightarrow> set cs = set xs \<and> distinct cs"
  by (auto simp: sort_categories_def split: if_splits)

lemma impute_most_frequent_Inr:
  assumes "impute_most_frequent col = Inr m"
  shows "m = None \<longleftrightarrow> observed col = []" and "m = Some x \<Longrightarrow> x \<in> set (observed col)"
proof -
  let ?tied = "filter (\<lambda>x. count_list (observed col) x = fold max (map (count_list (observed col)) (observed col)) 0) (observed col)"
  obtain s where s: "sort_categories ?tied = Inr s" and m: "m = (case s of [] \<Rightarrow> None | x # _ \<Rightarrow> Some x)"
    using assms by (auto simp: impute_most_frequent_def Let_def bind_eq_Inr)
  have set: "set s = set ?tied"
    using sort_categories_Inr[OF s] by simp
  have "?tied \<noteq> []" if "observed col \<noteq> []"
    using most_frequent_count[OF that] by (auto simp: filter_empty_conv)
  then have "s = [] \<longleftrightarrow> observed col = []"
    using set by (cases "observed col = []") auto
  then show "m = None \<longleftrightarrow> observed col = []"
    by (cases s) (auto simp: m)
  show "x \<in> set (observed col)" if "m = Some x"
  proof -
    have "x \<in> set s"
      using that by (auto simp: m split: list.splits)
    then show ?thesis
      unfolding set by simp
  qed
qed

lemma impute_most_frequent_ok: "same_kind (observed col) \<Longrightarrow> \<exists>m. impute_most_frequent col = Inr m"
proof -
  assume k: "same_kind (observed col)"
  let ?tied = "filter (\<lambda>x. count_list (observed col) x = fold max (map (count_list (observed col)) (observed col)) 0) (observed col)"
  have "same_kind ?tied"
    by (rule same_kind_subset[OF k]) simp
  then obtain s where "sort_categories ?tied = Inr s"
    using sort_categories_ok by blast
  then show ?thesis
    by (simp add: impute_most_frequent_def Let_def)
qed

lemma fit_onehot_column_Inr:
  assumes "fit_onehot_column col = Inr f"
  shows "f = None \<longleftrightarrow> observed (map to_cat col) = []"
    and "f = Some (m, cs) \<Longrightarrow> m \<in> set cs \<and> set cs = set (observed (map to_cat col)) \<and> distinct cs"
    and "same_kind (observed (map to_cat col))"
proof -
  obtain st where st: "impute_most_frequent (map to_cat col) = Inr st"
    and f: "(case st of None \<Rightarrow> Inr None
             | Some m \<Rightarrow> bind (sort_categories (map (\<lambda>c. case to_cat c of None \<Rightarrow> m | Some k \<Rightarrow> k) col))
                           (\<lambda>categories. Inr (Some (m, categories)))) = Inr f"
    using assms by (auto simp: fit_onehot_column_def bind_eq_Inr)
  note i = impute_most_frequent_Inr[OF st]
  have *: "st = Some m' \<Longrightarrow> \<exists>cs'. f = Some (m', cs') \<and> sort_categories (map (\<lambda>c. case to_cat c of None \<Rightarrow> m' | Some k \<Rightarrow> k) col) = Inr cs'" for m'
    using f by (auto simp: bind_eq_Inr)
  have n: "st = None \<Longrightarrow> f = None"
    using f by simp
  show "f = None \<longleftrightarrow> observed (map to_cat col) = []"
    using i(1) * n by (cases st) auto
  have full: "m \<in> set cs \<and> set cs = set (observed (map to_cat col)) \<and> distinct cs \<and> same_kind (observed (map to_cat col))"
    if "f = Some (m, cs)" for m cs
  proof -
    have stm: "st = Some m" and s: "sort_categories (map (\<lambda>c. case to_cat c of None \<Rightarrow> m | Some k \<Rightarrow> k) col) = Inr cs"
      using that * n by (cases st; auto)+
    have mo: "m \<in> set (observed (map to_cat col))"
      using i(2)[OF stm] .
    note si = set_imputed[of m to_cat col, OF mo]
    have "same_kind (map (\<lambda>c. case to_cat c of None \<Rightarrow> m | Some k \<Rightarrow> k) col)"
      using s sort_categories_ok by blast
    then have "same_kind (observed (map to_cat col))"
      by (rule same_kind_subset) (simp only: si subset_refl)
    then show ?thesis
      using sort_categories_Inr[OF s] mo si by simp
  qed
  then show "f = Some (m, cs) \<Longrightarrow> m \<in> set cs \<and> set cs = set (observed (map to_cat col)) \<and> distinct cs"
    by blast
  show "same_kind (observed (map to_cat col))"
  proof (cases f)
    case None
    then have "observed (map to_cat col) = []"
      using i(1) * n by (cases st) auto
    then show ?thesis
      by (simp add: same_kind_def)
  next
    case (Some a)
    then show ?thesis
      using full[of "fst a" "snd a"] by simp
  qed
qed

lemma fit_onehot_column_ok:
  assumes "same_kind (observed (map to_cat col))"
  shows "\<exists>f. fit_onehot_column col = Inr f"
proof -
  obtain st where st: "impute_most_frequent (map to_cat col) = Inr st"
    using impute_most_frequent_ok[OF assms] by blast
  show ?thesis
  proof (cases st)
    case None
    then show ?thesis
      by (simp add: fit_onehot_column_def st)
  next
    case (Some m)
    have mo: "m \<in> set (observed (map to_cat col))"
      using impute_most_frequent_Inr(2)[OF st Some] .
    have "same_kind (map (\<lambda>c. case to_cat c of None \<Rightarrow> m | Some k \<Rightarrow> k) col)"
      by (rule same_kind_subset[OF assms]) (simp only: set_imputed[of m to_cat col, OF mo] subset_refl)
    then obtain cs where "sort_categories (map (\<lambda>c. case to_cat c of None \<Rightarrow> m | Some k \<Rightarrow> k) col) = Inr cs"
      using sort_categories_ok by blast
    then show ?thesis
      by (simp add: fit_onehot_column_def st Some)
  qed
qed

lemma n_categories_fit:
  assumes "fit_onehot_column col = Inr f"
  shows "n_categories f = card (set (observed (map to_cat col)))"
proof (cases f)
  case None
  then show ?thesis
    using fit_onehot_column_Inr(1)[OF assms] by (simp add: n_categories_def)
next
  case (Some a)
  obtain m cs where a: "a = (m, cs)"
    by (cases a)
  show ?thesis
    using fit_onehot_column_Inr(2)[OF assms, of m cs] Some a distinct_card[of cs]
    by (auto simp: n_categories_def)
qed

lemma fit_scale_column_None: "fit_scale_column col = None \<longleftrightarrow> observed (map to_num col) = []"
  by (auto simp: fit_scale_column_def impute_median_def Let_def split: list.splits option.splits)

lemma fit_scale_Inr:
  "fit_transformer Impute_scale cols = Inr ft \<longleftrightarrow>
     ft = Fitted_scale (map fit_scale_column cols) \<and> list_ex (\<lambda>c. observed (map to_num c) \<noteq> []) cols"
  by (auto simp: Let_def list_all_iff list_ex_iff fit_scale_column_None)

lemma fit_onehot_Inr:
  "fit_transformer (Impute_onehot hu) cols = Inr ft \<longleftrightarrow>
     (\<exists>fs. ft = Fitted_onehot hu fs \<and> list_all2 (\<lambda>col f. fit_onehot_column col = Inr f) cols fs \<and>
           list_ex (\<lambda>f. f \<noteq> None) fs)"
  by (auto simp: bind_eq_Inr sequence_map_Inr list_all_iff list_ex_iff)

lemma fit_onehot_ok:
  assumes "list_all (\<lambda>c. same_kind (observed (map to_cat c))) cols"
    and "list_ex (\<lambda>c. observed (map to_cat c) \<noteq> []) cols"
  shows "\<exists>ft. fit_transformer (Impute_onehot hu) cols = Inr ft"
proof -
  have "list_all (\<lambda>m. \<exists>x. m = Inr x) (map fit_onehot_column cols)"
    using assms(1) fit_onehot_column_ok by (auto simp: list_all_iff)
  then obtain fs where fs: "sequence (map fit_onehot_column cols) = Inr fs"
    using sequence_Inr by blast
  then have a: "list_all2 (\<lambda>col f. fit_onehot_column col = Inr f) cols fs"
    by (simp add: sequence_map_Inr)
  obtain c where c: "c \<in> set cols" "observed (map to_cat c) \<noteq> []"
    using assms(2) by (auto simp: list_ex_iff)
  then obtain i where i: "i < length cols" "cols ! i = c"
    by (auto simp: in_set_conv_nth)
  have "fit_onehot_column c = Inr (fs ! i)"
    using list_all2_nthD[OF a i(1)] i(2) by simp
  then have "fs ! i \<noteq> None"
    using fit_onehot_column_Inr(1) c(2) by blast
  moreover have "i < length fs"
    using i(1) list_all2_lengthD[OF a] by simp
  ultimately have "list_ex (\<lambda>f. f \<noteq> None) fs"
    unfolding list_ex_iff using nth_mem by blast
  then show ?thesis
    using fit_onehot_Inr[of hu cols "Fitted_onehot hu fs"] a by blast
qed

lemma n_features_scale:
  assumes "fit_transformer Impute_scale cols = Inr ft"
  shows "n_features_out ft = length (filter (\<lambda>c. observed (map to_num c) \<noteq> []) cols)"
proof -
  have ft: "ft = Fitted_scale (map fit_scale_column cols)"
    using assms unfolding fit_scale_Inr by simp
  have "(\<lambda>f. f \<noteq> None) \<circ> fit_scale_column = (\<lambda>c. observed (map to_num c) \<noteq> [])"
    by (simp add: fun_eq_iff fit_scale_column_None del: not_None_eq)
  then show ?thesis
    unfolding ft n_features_out.simps filter_map length_map by (simp only:)
qed

lemma sum_n_categories:
  "list_all2 (\<lambda>col f. fit_onehot_column col = Inr f) cols fs \<Longrightarrow>
     sum_list (map n_categories fs) = sum_list (map (\<lambda>c. card (set (observed (map to_cat c)))) cols)"
  by (induction rule: list_all2_induct) (simp_all add: n_categories_fit)

lemma n_features_onehot:
  "fit_transformer (Impute_onehot hu) cols = Inr ft \<Longrightarrow>
     n_features_out ft = sum_list (map (\<lambda>c. card (set (observed (map to_cat c)))) cols)"
  by (auto simp: fit_onehot_Inr sum_n_categories simp del: fit_transformer.simps)

lemma onehot_ignore_unseen:
  "v \<notin> set categories \<Longrightarrow> onehot Ignore categories v = Inr (replicate (length categories) 0)"
  by (auto simp: onehot_def map_replicate_const[symmetric] intro!: map_cong)

lemma encode_ignore_total: "\<exists>x. encode Ignore f c = Inr x \<and> length x = n_categories f"
  by (cases f) (auto simp: onehot_def n_categories_def)

lemma onehot_row_ignore_total:
  "\<exists>x. onehot_row Ignore fs cells = Inr x \<and> (length cells = length fs \<longrightarrow> length x = sum_list (map n_categories fs))"
proof (induction Ignore fs cells rule: onehot_row.induct)
  case (1 f fs c cs)
  obtain x where "encode Ignore f c = Inr x" "length x = n_categories f"
    using encode_ignore_total by blast
  moreover obtain xs where "onehot_row Ignore fs cs = Inr xs"
    "length cs = length fs \<longrightarrow> length xs = sum_list (map n_categories fs)"
    using 1 calculation by blast
  ultimately show ?case
    by simp
qed simp_all

lemma scale_row_length:
  "length cells = length fs \<Longrightarrow>
     length (concat (map (\<lambda>(f, c). scale_cell f c) (zip fs cells))) = length (filter (\<lambda>f. f \<noteq> None) fs)"
proof (induction fs arbitrary: cells)
  case Nil
  then show ?case by simp
next
  case (Cons f fs)
  then obtain c cs where "cells = c # cs" "length cs = length fs"
    by (cases cells) auto
  then show ?case
    using Cons.IH[of cs] by (cases f) auto
qed

lemma preprocessor_fit_iff:
  "column_transformer_fit (preprocessor num cat) X = Inr f \<longleftrightarrow>
     set num \<union> set cat \<subseteq> set (columns X) \<and>
     (\<exists>ns cs.
        (if num = [] then ns = []
         else \<exists>ft. fit_transformer Impute_scale (map (column_cells X) num) = Inr ft \<and> ns = [(num, ft)]) \<and>
        (if cat = [] then cs = []
         else \<exists>ft. fit_transformer (Impute_onehot Ignore) (map (column_cells X) cat) = Inr ft \<and> cs = [(cat, ft)]) \<and>
        f = \<lparr>fitted_transformers = ns @ cs, fitted_remainder = []\<rparr>)"
proof (cases "filter (\<lambda>c. c \<notin> set (columns X)) (num @ cat)")
  case Nil
  then have sub: "set num \<union> set cat \<subseteq> set (columns X)"
    by (auto simp: filter_empty_conv)
  show ?thesis
    unfolding column_transformer_fit_def preprocessor_def listed_columns_def num_transformer_def cat_transformer_def
    using Nil sub
    by (cases "num = []"; cases "cat = []")
       (auto simp: bind_eq_Inr simp del: fit_transformer.simps)
next
  case (Cons c cs)
  then have "c \<in> set (num @ cat)" "c \<notin> set (columns X)"
    using filter_Cons_member[OF Cons] by simp_all
  then have "\<not> set num \<union> set cat \<subseteq> set (columns X)"
    by auto
  moreover have "column_transformer_fit (preprocessor num cat) X
      = Inl (ValueError ''A given column is not a column of the dataframe'')"
    unfolding column_transformer_fit_def preprocessor_def listed_columns_def
    using Cons by simp
  ultimately show ?thesis
    by auto
qed

lemma preprocessor_fit_ok:
  assumes "set num \<union> set cat \<subseteq> set (columns X)"
    and "num \<noteq> [] \<Longrightarrow> list_ex (\<lambda>c. observed (map to_num (column_cells X c)) \<noteq> []) num"
    and "cat \<noteq> [] \<Longrightarrow> list_ex (\<lambda>c. observed (map to_cat (column_cells X c)) \<noteq> []) cat"
    and "list_all (\<lambda>c. same_kind (observed (map to_cat (column_cells X c)))) cat"
  shows "\<exists>f. column_transformer_fit (preprocessor num cat) X = Inr f"
proof -
  have n: "\<exists>ft. fit_transformer Impute_scale (map (column_cells X) num) = Inr ft" if "num \<noteq> []"
    using assms(2)[OF that] unfolding fit_scale_Inr by (simp add: list_ex_iff)
  have c: "\<exists>ft. fit_transformer (Impute_onehot Ignore) (map (column_cells X) cat) = Inr ft" if "cat \<noteq> []"
    using assms(3)[OF that] assms(4) by (intro fit_onehot_ok) (simp_all add: list_ex_iff list_all_iff)
  show ?thesis
    unfolding preprocessor_fit_iff using assms(1) n c
    by (cases "num = []"; cases "cat = []") auto
qed

lemma preprocessor_n_features:
  assumes "column_transformer_fit (preprocessor num cat) X = Inr f"
  shows "n_features_pre f =
           length (filter (\<lambda>c. observed (map to_num (column_cells X c)) \<noteq> []) num) +
           sum_list (map (\<lambda>c. card (set (observed (map to_cat (column_cells X c))))) cat)"
proof -
  obtain ns cs where
    ns: "if num = [] then ns = []
         else \<exists>ft. fit_transformer Impute_scale (map (column_cells X) num) = Inr ft \<and> ns = [(num, ft)]" and
    cs: "if cat = [] then cs = []
         else \<exists>ft. fit_transformer (Impute_onehot Ignore) (map (column_cells X) cat) = Inr ft \<and> cs = [(cat, ft)]" and
    f: "f = \<lparr>fitted_transformers = ns @ cs, fitted_remainder = []\<rparr>"
    using assms unfolding preprocessor_fit_iff by blast
  have a: "sum_list (map (\<lambda>(cols, ft). n_features_out ft) ns)
      = length (filter (\<lambda>c. observed (map to_num (column_cells X c)) \<noteq> []) num)"
  proof (cases "num = []")
    case True
    then show ?thesis
      using ns by simp
  next
    case False
    then obtain ft where "fit_transformer Impute_scale (map (column_cells X) num) = Inr ft" "ns = [(num, ft)]"
      using ns by auto
    then show ?thesis
      using n_features_scale[of "map (column_cells X) num" ft] by (simp add: filter_map comp_def)
  qed
  have b: "sum_list (map (\<lambda>(cols, ft). n_features_out ft) cs)
      = sum_list (map (\<lambda>c. card (set (observed (map to_cat (column_cells X c))))) cat)"
  proof (cases "cat = []")
    case True
    then show ?thesis
      using cs by simp
  next
    case False
    then obtain ft where "fit_transformer (Impute_onehot Ignore) (map (column_cells X) cat) = Inr ft" "cs = [(cat, ft)]"
      using cs by auto
    then show ?thesis
      using n_features_onehot[of Ignore "map (column_cells X) cat" ft] by (simp add: comp_def)
  qed
  show ?thesis
    using a b by (simp add: n_features_pre_def f)
qed

lemma fitted_scale_row:
  assumes "fit_transformer Impute_scale cols = Inr ft" "length cells = length cols"
  shows "\<exists>x. transform_row ft cells = Inr x \<and> length x = n_features_out ft"
  using assms scale_row_length[of cells "map fit_scale_column cols"]
  by (simp add: fit_scale_Inr del: fit_transformer.simps)

lemma fitted_onehot_row:
  assumes "fit_transformer (Impute_onehot Ignore) cols = Inr ft" "length cells = length cols"
  shows "\<exists>x. transform_row ft cells = Inr x \<and> length x = n_features_out ft"
proof -
  obtain fs where ft: "ft = Fitted_onehot Ignore fs" and a: "list_all2 (\<lambda>col f. fit_onehot_column col = Inr f) cols fs"
    using assms(1) unfolding fit_onehot_Inr by blast
  have "length cells = length fs"
    using assms(2) list_all2_lengthD[OF a] by simp
  then show ?thesis
    using onehot_row_ignore_total[of fs cells] by (simp add: ft)
qed

lemma preprocessor_transform_total:
  assumes "column_transformer_fit (preprocessor num cat) X = Inr f"
  shows "\<exists>x. column_transformer_transform f r = Inr x \<and> length x = n_features_pre f"
proof -
  obtain ns cs where
    ns: "if num = [] then ns = []
         else \<exists>ft. fit_transformer Impute_scale (map (column_cells X) num) = Inr ft \<and> ns = [(num, ft)]" and
    cs: "if cat = [] then cs = []
         else \<exists>ft. fit_transformer (Impute_onehot Ignore) (map (column_cells X) cat) = Inr ft \<and> cs = [(cat, ft)]" and
    f: "f = \<lparr>fitted_transformers = ns @ cs, fitted_remainder = []\<rparr>"
    using assms unfolding preprocessor_fit_iff by blast
  have a: "\<exists>x. transform_blocks ns r = Inr x \<and> length x = sum_list (map (\<lambda>(cols, ft). n_features_out ft) ns)"
  proof (cases "num = []")
    case True
    then show ?thesis
      using ns by simp
  next
    case False
    then obtain ft where ft: "fit_transformer Impute_scale (map (column_cells X) num) = Inr ft" "ns = [(num, ft)]"
      using ns by auto
    obtain x where "transform_row ft (map (cell_of r) num) = Inr x" "length x = n_features_out ft"
      using fitted_scale_row[OF ft(1), of "map (cell_of r) num"] by auto
    then show ?thesis
      by (simp add: ft(2))
  qed
  have b: "\<exists>x. transform_blocks cs r = Inr x \<and> length x = sum_list (map (\<lambda>(cols, ft). n_features_out ft) cs)"
  proof (cases "cat = []")
    case True
    then show ?thesis
      using cs by simp
  next
    case False
    then obtain ft where ft: "fit_transformer (Impute_onehot Ignore) (map (column_cells X) cat) = Inr ft" "cs = [(cat, ft)]"
      using cs by auto
    obtain x where "transform_row ft (map (cell_of r) cat) = Inr x" "length x = n_features_out ft"
      using fitted_onehot_row[OF ft(1), of "map (cell_of r) cat"] by auto
    then show ?thesis
      by (simp add: ft(2))
  qed
  have app: "transform_blocks (xs @ ys) r = bind (transform_blocks xs r) (\<lambda>x. bind (transform_blocks ys r) (\<lambda>y. Inr (x @ y)))"
    for xs ys
  proof (induction xs)
    case Nil
    then show ?case by (simp add: bind_Inr_right)
  next
    case (Cons a xs)
    obtain cols ft where a: "a = (cols, ft)" by (cases a)
    show ?case
      unfolding a append_Cons transform_blocks.simps Cons.IH
      by (cases "transform_row ft (map (cell_of r) cols)"; cases "transform_blocks xs r"; cases "transform_blocks ys r") simp_all
  qed
  obtain x where x: "transform_blocks ns r = Inr x" "length x = sum_list (map (\<lambda>(cols, ft). n_features_out ft) ns)"
    using a by blast
  obtain y where y: "transform_blocks cs r = Inr y" "length y = sum_list (map (\<lambda>(cols, ft). n_features_out ft) cs)"
    using b by blast
  show ?thesis
    by (simp add: column_transformer_transform_def f app x y n_features_pre_def)
qed

lemma pipeline_fit_Inr:
  "pipeline_fit solve [(n1, Preprocessor ct), (n2, Poly pf), (n3, Model r)] X y = Inr f \<longleftrightarrow>
     (\<exists>fct Xt ys. column_transformer_fit ct X = Inr fct \<and>
        sequence (map (column_transformer_transform fct) (rows X)) = Inr Xt \<and>
        rows X \<noteq> [] \<and> n_features_pre fct \<noteq> 0 \<and> targets y = Inr ys \<and>
        f = \<lparr>fitted_preprocessor = fct, fitted_poly = pf, n_features_in = n_features_pre fct,
             fitted_model = r,
             coef = fst (solve r (map (poly_transform pf (n_features_pre fct)) Xt) ys),
             intercept = snd (solve r (map (poly_transform pf (n_features_pre fct)) Xt) ys)\<rparr>)"
  unfolding pipeline_fit_def
  by (auto simp: bind_eq_Inr case_prod_beta split: if_splits)

lemma pipeline_fit_ok:
  assumes fit: "column_transformer_fit (preprocessor num cat) X = Inr fct"
    and rows: "rows X \<noteq> []" and y: "targets y = Inr ys" and n: "n_features_pre fct \<noteq> 0"
  shows "\<exists>f. pipeline_fit solve [(n1, Preprocessor (preprocessor num cat)), (n2, Poly pf), (n3, Model r)] X y = Inr f \<and>
           fitted_preprocessor f = fct \<and> n_features_in f = n_features_pre fct \<and> fitted_poly f = pf \<and> fitted_model f = r"
proof -
  have "list_all (\<lambda>m. \<exists>x. m = Inr x) (map (column_transformer_transform fct) (rows X))"
    using preprocessor_transform_total[OF fit] unfolding list_all_iff set_map by blast
  then obtain Xt where Xt: "sequence (map (column_transformer_transform fct) (rows X)) = Inr Xt"
    using sequence_Inr by blast
  show ?thesis
    unfolding pipeline_fit_Inr using fit Xt rows y n by auto
qed

subsection \<open>Column classifier and combined transformer\<close>

lemma index_drop_Inr:
  "index_drop names labels = Inr xs \<longleftrightarrow> set labels \<subseteq> set names \<and> xs = filter (\<lambda>c. c \<notin> set labels) names"
proof (cases "filter (\<lambda>l. l \<notin> set names) labels")
  case Nil
  then show ?thesis
    by (auto simp: index_drop_def filter_empty_conv)
next
  case (Cons l ls)
  have "l \<in> set (filter (\<lambda>l. l \<notin> set names) labels)"
    unfolding Cons by simp
  then have "l \<in> set labels" "l \<notin> set names"
    by simp_all
  then show ?thesis
    by (auto simp: index_drop_def Cons)
qed

lemma set_select_dtypes:
  "distinct (columns df) \<Longrightarrow> c \<in> set (select_dtypes ts df) \<longleftrightarrow> (\<exists>t\<in>set ts. map_of (dtypes df) c = Some t)"
  by (force simp: select_dtypes_def columns_def)

lemma dtypes_setitem: "dtypes (setitem name t cells df) = AList.update name t (dtypes df)"
  by (simp add: setitem_def)

lemma dtypes_dropna: "dropna name df = Inr df' \<Longrightarrow> dtypes df' = dtypes df"
  by (auto simp: dropna_def Let_def split: if_splits)

lemma dtypes_assign_dt: "assign_dt name idt field df = Inr df' \<Longrightarrow> dtypes df' = AList.update name idt (dtypes df)"
  by (auto simp: assign_dt_def dtypes_setitem split: sum.splits)

lemma feature_deriver_dtypes:
  assumes "feature_deriver parse idt raw = Inr data"
  shows "dtypes data = AList.update ''dayofweek'' idt (AList.update ''hour'' idt (AList.update ''day'' idt
           (AList.update ''month'' idt (AList.update ''year'' idt (AList.update ''timestamp'' Datetime64 (dtypes raw))))))"
  using assms unfolding feature_deriver_def bind_eq_Inr
  by (auto dest!: dtypes_assign_dt dtypes_dropna simp: dtypes_setitem)

lemma feature_deriver_timestamp_dtype:
  assumes "feature_deriver parse idt raw = Inr data" "distinct (columns raw)"
  shows "distinct (columns data)" and "map_of (dtypes data) ''timestamp'' = Some Datetime64"
  using assms(2) unfolding feature_deriver_dtypes[OF assms(1)] columns_def
  by (simp_all add: distinct_update update_conv')

lemma classifier_groups:
  assumes d: "distinct (columns data)" and ts: "map_of (dtypes data) ''timestamp'' = Some Datetime64"
    and fs: "features data = Inr fs" and ns: "num_cols data = Inr ns"
  shows "c \<in> set ns \<longleftrightarrow> c \<in> set fs \<and> (map_of (dtypes data) c = Some Float64 \<or> map_of (dtypes data) c = Some Int64)"
    and "c \<in> set (cat_cols data) \<longleftrightarrow> c \<in> set fs \<and> map_of (dtypes data) c = Some Object"
proof -
  have tgt: "map_of (dtypes data) target = Some Float64 \<or> map_of (dtypes data) target = Some Int64"
    using ns d by (auto simp: num_cols_def index_drop_Inr set_select_dtypes)
  have infs: "c \<in> set fs \<longleftrightarrow> c \<in> set (columns data) \<and> c \<noteq> target \<and> c \<noteq> ''timestamp''"
    using fs by (auto simp: features_def index_drop_Inr)
  have cols: "map_of (dtypes data) c = Some t \<Longrightarrow> c \<in> set (columns data)" for t
    by (auto simp: columns_def dest: map_of_SomeD intro: rev_image_eqI)
  show "c \<in> set ns \<longleftrightarrow> c \<in> set fs \<and> (map_of (dtypes data) c = Some Float64 \<or> map_of (dtypes data) c = Some Int64)"
    using ns d ts cols by (auto simp: num_cols_def index_drop_Inr set_select_dtypes infs)
  show "c \<in> set (cat_cols data) \<longleftrightarrow> c \<in> set fs \<and> map_of (dtypes data) c = Some Object"
    using d ts tgt cols by (auto simp: cat_cols_def set_select_dtypes infs)
qed


text \<open>
  Claim C4, as amended. Of the columns of the derived dataset other than the target and the
  raw timestamp, the numeric group holds exactly those of dtype \<^verbatim>\<open>float64\<close> or \<^verbatim>\<open>int64\<close> and
  the categorical group exactly those of dtype \<^verbatim>\<open>object\<close>; no column is in both groups. A
  column of any other dtype is in neither.
\<close>

theorem column_classifier_groups:
  assumes "feature_deriver parse idt raw = Inr data" and "distinct (columns raw)"
    and "features data = Inr fs" and "num_cols data = Inr ns"
  shows "(\<forall>c. c \<in> set ns \<longleftrightarrow>
              c \<in> set fs \<and> (map_of (dtypes data) c = Some Float64 \<or> map_of (dtypes data) c = Some Int64)) \<and>
         (\<forall>c. c \<in> set (cat_cols data) \<longleftrightarrow> c \<in> set fs \<and> map_of (dtypes data) c = Some Object) \<and>
         set ns \<inter> set (cat_cols data) = {}"
proof -
  note ts = feature_deriver_timestamp_dtype[OF assms(1,2)]
  note g = classifier_groups[OF ts assms(3,4)]
  have "set ns \<inter> set (cat_cols data) = {}"
    using g by auto
  then show ?thesis
    using g by blast
qed

lemma example_dtypes:
  "dtypes example_data =
     [(''timestamp'', Datetime64), (''consumption'', Float64), (''site'', Object), (''holiday'', Bool),
      (''year'', Int64), (''month'', Int64), (''day'', Int64), (''hour'', Int64), (''dayofweek'', Int64)]"
  by (simp add: example_data_def)

lemma example_groups:
  "features example_data = Inr [''site'', ''holiday'', ''year'', ''month'', ''day'', ''hour'', ''dayofweek'']"
  "num_cols example_data = Inr [''year'', ''month'', ''day'', ''hour'', ''dayofweek'']"
  "cat_cols example_data = [''site'']"
  by (simp_all add: features_def num_cols_def cat_cols_def index_drop_def select_dtypes_def columns_def
      target_def example_dtypes)

lemma raw_example_distinct: "distinct (columns raw_example)"
  by (simp add: raw_example_def columns_def)

theorem column_classifier_groups_witness:
  "feature_deriver example_parse Int64 raw_example = Inr example_data \<and> distinct (columns raw_example) \<and>
   features example_data = Inr [''site'', ''holiday'', ''year'', ''month'', ''day'', ''hour'', ''dayofweek''] \<and>
   num_cols example_data = Inr [''year'', ''month'', ''day'', ''hour'', ''dayofweek''] \<and>
   cat_cols example_data = [''site''] \<and>
   set [''year'', ''month'', ''day'', ''hour'', ''dayofweek''] \<inter> set (cat_cols example_data) = {}"
  using column_classifier_groups[OF example_data_derived raw_example_distinct example_groups(1,2)]
    example_data_derived raw_example_distinct example_groups
  by simp

text \<open>
  The claim as written fails: the boolean column of the example is a feature column and is
  in neither group.
\<close>

theorem boolean_column_in_neither_group:
  "feature_deriver example_parse Int64 raw_example = Inr example_data \<and>
   map_of (dtypes example_data) ''holiday'' = Some Bool \<and>
   (\<exists>fs ns. features example_data = Inr fs \<and> num_cols example_data = Inr ns \<and>
      ''holiday'' \<in> set fs \<and> ''holiday'' \<notin> set ns \<and> ''holiday'' \<notin> set (cat_cols example_data))"
  using example_data_derived example_groups by (simp add: example_dtypes)

lemma agree_except_column_cells:
  assumes "agree_except c X X'" "c' \<noteq> c"
  shows "column_cells X' c' = column_cells X c'"
proof -
  have "list_all2 (\<lambda>r r'. cell_of r' c' = cell_of r c') (rows X) (rows X')"
    using assms by (auto simp: agree_except_def elim!: list_all2_mono)
  then have "map (\<lambda>r. cell_of r c') (rows X) = map (\<lambda>r. cell_of r c') (rows X')"
    by (induction rule: list_all2_induct) auto
  then show ?thesis
    by (simp add: column_cells_def)
qed

lemma agree_except_fit:
  assumes a: "agree_except c X X'" and c: "c \<notin> set (listed_columns ct)" and r: "remainder ct = Drop"
  shows "column_transformer_fit ct X' = column_transformer_fit ct X"
proof -
  have cols: "columns X' = columns X"
    using a by (simp add: agree_except_def columns_def)
  have eq: "map (column_cells X') cs = map (column_cells X) cs"
    if "(name, t, cs) \<in> set (transformers ct)" for name t cs
  proof (rule map_cong[OF refl])
    fix c' assume "c' \<in> set cs"
    then have "c' \<in> set (listed_columns ct)"
      using that by (force simp: listed_columns_def)
    then show "column_cells X' c' = column_cells X c'"
      using agree_except_column_cells[OF a] c by metis
  qed
  have "(case x of (name, t, cs) \<Rightarrow> bind (fit_transformer t (map (column_cells X') cs)) (\<lambda>ft. Inr (cs, ft)))
      = (case x of (name, t, cs) \<Rightarrow> bind (fit_transformer t (map (column_cells X) cs)) (\<lambda>ft. Inr (cs, ft)))"
    if "x \<in> set (filter (\<lambda>(name, t, cols). cols \<noteq> []) (transformers ct))" for x
  proof -
    obtain name t cs where x: "x = (name, t, cs)"
      by (cases x)
    have m: "(name, t, cs) \<in> set (transformers ct)"
      using that unfolding x by simp
    show ?thesis
      unfolding x prod.case eq[OF m] by (rule refl)
  qed
  then have "map (\<lambda>(name, t, cs). bind (fit_transformer t (map (column_cells X') cs)) (\<lambda>ft. Inr (cs, ft)))
               (filter (\<lambda>(name, t, cols). cols \<noteq> []) (transformers ct))
      = map (\<lambda>(name, t, cs). bind (fit_transformer t (map (column_cells X) cs)) (\<lambda>ft. Inr (cs, ft)))
               (filter (\<lambda>(name, t, cols). cols \<noteq> []) (transformers ct))"
    by (rule map_cong[OF refl])
  then show ?thesis
    unfolding column_transformer_fit_def cols r by (simp only:)
qed

lemma transform_blocks_cong:
  assumes "\<And>cols ft c. (cols, ft) \<in> set fts \<Longrightarrow> c \<in> set cols \<Longrightarrow> cell_of r' c = cell_of r c"
  shows "transform_blocks fts r' = transform_blocks fts r"
  using assms
proof (induction fts)
  case Nil
  then show ?case by simp
next
  case (Cons a fts)
  obtain cols ft where a: "a = (cols, ft)"
    by (cases a)
  have "map (cell_of r') cols = map (cell_of r) cols"
    using Cons.prems[of cols ft] by (simp add: a)
  moreover have "transform_blocks fts r' = transform_blocks fts r"
    using Cons.prems by (intro Cons.IH) auto
  ultimately show ?case
    unfolding a transform_blocks.simps by (simp only:)
qed

lemma list_all2_member_right: "list_all2 P xs ys \<Longrightarrow> y \<in> set ys \<Longrightarrow> \<exists>x\<in>set xs. P x y"
  by (induction rule: list_all2_induct) auto

lemma fitted_reads_listed:
  assumes "column_transformer_fit ct X = Inr f" "remainder ct = Drop" "(cols, ft) \<in> set (fitted_transformers f)" "c \<in> set cols"
  shows "c \<in> set (listed_columns ct)" and "fitted_remainder f = []"
proof -
  let ?g = "\<lambda>(name, t, cols). bind (fit_transformer t (map (column_cells X) cols)) (\<lambda>ft. Inr (cols, ft))"
  let ?ts = "filter (\<lambda>(name, t, cols). cols \<noteq> []) (transformers ct)"
  obtain fts where s: "sequence (map ?g ?ts) = Inr fts"
    and f: "f = \<lparr>fitted_transformers = fts, fitted_remainder = []\<rparr>"
    using assms(1,2) by (auto simp: column_transformer_fit_def bind_eq_Inr split: list.splits)
  show "fitted_remainder f = []"
    by (simp add: f)
  have a: "list_all2 (\<lambda>x y. ?g x = Inr y) ?ts fts"
    using s unfolding sequence_map_Inr .
  have m: "(cols, ft) \<in> set fts"
    using assms(3) by (simp add: f)
  obtain x where x: "x \<in> set ?ts" "?g x = Inr (cols, ft)"
    using list_all2_member_right[OF a m] by blast
  obtain name t cs where xe: "x = (name, t, cs)"
    by (cases x)
  have "cs = cols"
    using x(2) unfolding xe by (auto simp: bind_eq_Inr)
  then have "(name, t, cols) \<in> set (transformers ct)"
    using x(1) unfolding xe by simp
  then show "c \<in> set (listed_columns ct)"
    using assms(4) by (force simp: listed_columns_def)
qed

lemma agree_except_transform:
  assumes f: "column_transformer_fit ct X = Inr f" and r: "remainder ct = Drop"
    and c: "c \<notin> set (listed_columns ct)" and rr: "\<forall>c'. c' \<noteq> c \<longrightarrow> cell_of r' c' = cell_of r c'"
  shows "column_transformer_transform f r' = column_transformer_transform f r"
proof -
  have "transform_blocks (fitted_transformers f) r' = transform_blocks (fitted_transformers f) r"
  proof (rule transform_blocks_cong)
    fix cols ft c' assume "(cols, ft) \<in> set (fitted_transformers f)" "c' \<in> set cols"
    then have "c' \<in> set (listed_columns ct)"
      using fitted_reads_listed(1)[OF f r] by blast
    then show "cell_of r' c' = cell_of r c'"
      using c rr by metis
  qed
  moreover have "fitted_remainder f = []"
    using f r by (auto simp: column_transformer_fit_def bind_eq_Inr split: list.splits)
  ultimately show ?thesis
    by (simp add: column_transformer_transform_def)
qed

text \<open>
  Claim C9, as amended. A column other than the target and the raw timestamp whose dtype is
  none of \<^verbatim>\<open>float64\<close>, \<^verbatim>\<open>int64\<close> and \<^verbatim>\<open>object\<close> (a boolean column, say) is in the feature set
  and in the frame passed to the split, but is not an input of the combined transformer:
  changing its cells changes neither the outcome of fitting the transformer nor, once it is
  fitted, any transformed row.
\<close>

theorem other_dtypes_never_reach_the_model:
  assumes d: "distinct (columns data)"
    and fs: "features data = Inr fs" and ns: "num_cols data = Inr ns"
    and X: "getitems data fs = Inr X"
    and c: "c \<in> set (columns data)" "c \<noteq> target" "c \<noteq> ''timestamp''"
    and t: "map_of (dtypes data) c \<notin> {Some Float64, Some Int64, Some Object}"
  shows "c \<in> set fs \<and> c \<in> set (columns X) \<and>
         c \<notin> set (input_columns (preprocessor ns (cat_cols data)) X) \<and>
         (\<forall>X'. agree_except c X X' \<longrightarrow>
            column_transformer_fit (preprocessor ns (cat_cols data)) X'
              = column_transformer_fit (preprocessor ns (cat_cols data)) X \<and>
            (\<forall>f. column_transformer_fit (preprocessor ns (cat_cols data)) X = Inr f \<longrightarrow>
               list_all2 (\<lambda>r r'. column_transformer_transform f r' = column_transformer_transform f r)
                 (rows X) (rows X')))"
proof -
  let ?ct = "preprocessor ns (cat_cols data)"
  have infs: "c \<in> set fs"
    using fs c by (auto simp: features_def index_drop_Inr)
  have inX: "c \<in> set (columns X)"
    using X infs by (auto simp: getitems_def columns_def image_image split: list.splits)
  have nn: "c \<notin> set ns"
    using ns d t by (auto simp: num_cols_def index_drop_Inr set_select_dtypes)
  have nc: "c \<notin> set (cat_cols data)"
    using d t by (auto simp: cat_cols_def set_select_dtypes)
  have listed: "listed_columns ?ct = ns @ cat_cols data" and rem: "remainder ?ct = Drop"
    by (simp_all add: preprocessor_def listed_columns_def)
  have nl: "c \<notin> set (listed_columns ?ct)"
    using nn nc by (simp add: listed)
  have "c \<notin> set (input_columns ?ct X)"
    using nl by (simp add: input_columns_def rem)
  moreover have "column_transformer_fit ?ct X' = column_transformer_fit ?ct X" if "agree_except c X X'" for X'
    using agree_except_fit[OF that nl rem] .
  moreover have "list_all2 (\<lambda>r r'. column_transformer_transform f r' = column_transformer_transform f r) (rows X) (rows X')"
    if "agree_except c X X'" "column_transformer_fit ?ct X = Inr f" for X' f
    using that(1) agree_except_transform[OF that(2) rem nl]
    by (auto simp: agree_except_def elim!: list_all2_mono)
  ultimately show ?thesis
    using infs inX by blast
qed

lemma getitems_Inr:
  assumes "getitems df names = Inr X"
  shows "index X = index df" and "rows X = map (\<lambda>r. map (\<lambda>c. (c, cell_of r c)) names) (rows df)"
    and "dtypes X = map (\<lambda>c. (c, the (map_of (dtypes df) c))) names" and "columns X = names"
    and "set names \<subseteq> set (columns df)"
  using assms by (auto simp: getitems_def columns_def comp_def filter_empty_conv split: list.splits dest: filter_Cons_member)

lemma getitems_ok: "set names \<subseteq> set (columns df) \<Longrightarrow> \<exists>X. getitems df names = Inr X"
  by (auto simp: getitems_def split: list.splits dest: filter_Cons_member)

lemma agree_except_update: "agree_except c X (X\<lparr>rows := map (AList.update c v) (rows X)\<rparr>)"
  by (simp add: agree_except_def list_all2_map2 list_all2_same cell_of_update)

theorem other_dtypes_never_reach_the_model_witness:
  "\<exists>fs ns X. distinct (columns example_data) \<and> features example_data = Inr fs \<and>
     num_cols example_data = Inr ns \<and> getitems example_data fs = Inr X \<and>
     ''holiday'' \<in> set (columns example_data) \<and> ''holiday'' \<noteq> target \<and> ''holiday'' \<noteq> ''timestamp'' \<and>
     map_of (dtypes example_data) ''holiday'' = Some Bool \<and>
     ''holiday'' \<in> set fs \<and> ''holiday'' \<in> set (columns X) \<and>
     ''holiday'' \<notin> set (input_columns (preprocessor ns (cat_cols example_data)) X) \<and>
     column_transformer_fit (preprocessor ns (cat_cols example_data))
         (X\<lparr>rows := map (AList.update ''holiday'' (Boolean True)) (rows X)\<rparr>)
       = column_transformer_fit (preprocessor ns (cat_cols example_data)) X \<and>
     (\<exists>f. column_transformer_fit (preprocessor ns (cat_cols example_data)) X = Inr f)"
proof -
  have d: "distinct (columns example_data)"
    by (simp add: columns_def example_dtypes)
  obtain X where X: "getitems example_data [''site'', ''holiday'', ''year'', ''month'', ''day'', ''hour'', ''dayofweek''] = Inr X"
    using getitems_ok[of "[''site'', ''holiday'', ''year'', ''month'', ''day'', ''hour'', ''dayofweek'']" example_data]
    by (auto simp: columns_def example_dtypes)
  have c: "''holiday'' \<in> set (columns example_data)" "''holiday'' \<noteq> target" "''holiday'' \<noteq> ''timestamp''"
    by (simp_all add: columns_def example_dtypes target_def)
  have t: "map_of (dtypes example_data) ''holiday'' \<notin> {Some Float64, Some Int64, Some Object}"
    by (simp add: example_dtypes)
  note rX = getitems_Inr(2)[OF X] and cX = getitems_Inr(4)[OF X]
  have "\<exists>f. column_transformer_fit (preprocessor [''year'', ''month'', ''day'', ''hour'', ''dayofweek''] [''site'']) X = Inr f"
  proof (rule preprocessor_fit_ok)
    show "set [''year'', ''month'', ''day'', ''hour'', ''dayofweek''] \<union> set [''site''] \<subseteq> set (columns X)"
      by (simp add: cX)
    show "list_ex (\<lambda>c. observed (map to_num (column_cells X c)) \<noteq> []) [''year'', ''month'', ''day'', ''hour'', ''dayofweek'']"
      by (simp add: column_cells_def rX example_data_def cell_of_def to_num_def)
    show "list_ex (\<lambda>c. observed (map to_cat (column_cells X c)) \<noteq> []) [''site'']"
      by (simp add: column_cells_def rX example_data_def cell_of_def to_cat_def)
    show "list_all (\<lambda>c. same_kind (observed (map to_cat (column_cells X c)))) [''site'']"
      by (simp add: column_cells_def rX example_data_def cell_of_def to_cat_def same_kind_def)
  qed
  then have fit: "\<exists>f. column_transformer_fit (preprocessor [''year'', ''month'', ''day'', ''hour'', ''dayofweek''] (cat_cols example_data)) X = Inr f"
    by (simp only: example_groups(3))
  show ?thesis
    using other_dtypes_never_reach_the_model[OF d example_groups(1,2) X c t]
      d example_groups(1,2) X c agree_except_update[of "''holiday''" X "Boolean True"] fit
    by (auto simp: example_dtypes)
qed

text \<open>
  The claim as written names the parsed datetime column as an example. It is not one: line
  33 leaves the raw timestamp out of the feature set, so the column is not in the frame
  passed to the split, whatever its dtype.
\<close>

theorem parsed_timestamp_is_not_a_feature:
  "feature_deriver example_parse Int64 raw_example = Inr example_data \<and>
   map_of (dtypes example_data) ''timestamp'' = Some Datetime64 \<and>
   (\<exists>fs X. features example_data = Inr fs \<and> getitems example_data fs = Inr X \<and>
      ''timestamp'' \<notin> set fs \<and> ''timestamp'' \<notin> set (columns X))"
proof -
  obtain X where X: "getitems example_data [''site'', ''holiday'', ''year'', ''month'', ''day'', ''hour'', ''dayofweek''] = Inr X"
    using getitems_ok[of "[''site'', ''holiday'', ''year'', ''month'', ''day'', ''hour'', ''dayofweek'']" example_data]
    by (auto simp: columns_def example_dtypes)
  show ?thesis
    using example_data_derived example_groups(1) X getitems_Inr(4)[OF X]
    by (simp add: example_dtypes)
qed

subsection \<open>Train/test split\<close>

lemma n_test_fifth: "nat \<lceil>(2 / 10) * real n\<rceil> = (n + 4) div 5"
proof -
  have "\<lceil>(2 / 10) * real n\<rceil> = \<lceil>real_of_int (int n) / real_of_int 5\<rceil>"
    by simp
  also have "\<dots> = - (- int n div 5)"
    by (simp only: ceiling_divide_eq_div)
  also have "\<dots> = (int n + 4) div 5"
    by linarith
  finally show ?thesis
    by (simp add: nat_div_distrib nat_add_distrib)
qed

lemma split_sizes_fifth:
  "2 \<le> n \<Longrightarrow> split_sizes (2 / 10) n = Inr (n - (n + 4) div 5, (n + 4) div 5)"
  unfolding split_sizes_def n_test_fifth Let_def by auto

lemma split_sizes_small: "n < 2 \<Longrightarrow> \<exists>e. split_sizes (2 / 10) n = Inl e"
  unfolding split_sizes_def n_test_fifth Let_def by auto

lemma split_positions_permutation:
  assumes dist: "distinct (rng seed n)" and st: "set (rng seed n) = {0..<n}" and n: "2 \<le> n"
  shows "\<exists>ind_train ind_test. split_positions rng (2 / 10) seed n = Inr (ind_train, ind_test) \<and>
           ind_test = take ((n + 4) div 5) (rng seed n) \<and> ind_train = drop ((n + 4) div 5) (rng seed n) \<and>
           distinct ind_test \<and> distinct ind_train \<and> set ind_test \<inter> set ind_train = {} \<and>
           set ind_test \<union> set ind_train = {0..<n} \<and>
           length ind_test = (n + 4) div 5 \<and> length ind_train = n - (n + 4) div 5"
proof -
  have len: "length (rng seed n) = n"
    using distinct_card[OF dist] st by simp
  have k: "(n + 4) div 5 \<le> n"
    using n by linarith
  have tk: "take (n - (n + 4) div 5) (drop ((n + 4) div 5) (rng seed n)) = drop ((n + 4) div 5) (rng seed n)"
    by (simp add: len)
  have sp: "split_positions rng (2 / 10) seed n
      = Inr (drop ((n + 4) div 5) (rng seed n), take ((n + 4) div 5) (rng seed n))"
    unfolding split_positions_def split_sizes_fifth[OF n] by (simp add: tk Let_def)
  have "distinct (take ((n + 4) div 5) (rng seed n) @ drop ((n + 4) div 5) (rng seed n))"
    "set (take ((n + 4) div 5) (rng seed n) @ drop ((n + 4) div 5) (rng seed n)) = {0..<n}"
    using dist st by (simp_all only: append_take_drop_id)
  then have "distinct (take ((n + 4) div 5) (rng seed n))" "distinct (drop ((n + 4) div 5) (rng seed n))"
    "set (take ((n + 4) div 5) (rng seed n)) \<inter> set (drop ((n + 4) div 5) (rng seed n)) = {}"
    "set (take ((n + 4) div 5) (rng seed n)) \<union> set (drop ((n + 4) div 5) (rng seed n)) = {0..<n}"
    by (simp_all only: distinct_append set_append)
  then show ?thesis
    using k len sp by simp
qed


lemma iloc_in_range:
  assumes "set idx \<subseteq> {0..<length (rows X)}" "length (index X) = length (rows X)"
  shows "iloc X idx = Inr (X\<lparr>index := map ((!) (index X)) idx, rows := map ((!) (rows X)) idx\<rparr>)"
  using assms by (auto simp: iloc_def list_all_iff)

lemma s_iloc_in_range:
  assumes "set idx \<subseteq> {0..<length (s_cells y)}" "length (s_index y) = length (s_cells y)"
  shows "s_iloc y idx = Inr (y\<lparr>s_index := map ((!) (s_index y)) idx, s_cells := map ((!) (s_cells y)) idx\<rparr>)"
  using assms by (auto simp: s_iloc_def list_all_iff)

lemma train_test_split_explicit:
  assumes sp: "split_positions rng test_size seed (length (rows X)) = Inr (ind_train, ind_test)"
    and sub: "set ind_train \<subseteq> {0..<length (rows X)}" "set ind_test \<subseteq> {0..<length (rows X)}"
    and len: "length (index X) = length (rows X)" "length (s_index y) = length (rows X)"
      "length (s_cells y) = length (rows X)"
  shows "train_test_split rng X y test_size seed =
      Inr (X\<lparr>index := map ((!) (index X)) ind_train, rows := map ((!) (rows X)) ind_train\<rparr>,
           X\<lparr>index := map ((!) (index X)) ind_test, rows := map ((!) (rows X)) ind_test\<rparr>,
           y\<lparr>s_index := map ((!) (s_index y)) ind_train, s_cells := map ((!) (s_cells y)) ind_train\<rparr>,
           y\<lparr>s_index := map ((!) (s_index y)) ind_test, s_cells := map ((!) (s_cells y)) ind_test\<rparr>)"
proof -
  note i1 = iloc_in_range[OF sub(1) len(1)] and i2 = iloc_in_range[OF sub(2) len(1)]
  have sub': "set ind_train \<subseteq> {0..<length (s_cells y)}" "set ind_test \<subseteq> {0..<length (s_cells y)}"
    using sub len(3) by simp_all
  have ly: "length (s_index y) = length (s_cells y)"
    using len by simp
  note j1 = s_iloc_in_range[OF sub'(1) ly] and j2 = s_iloc_in_range[OF sub'(2) ly]
  show ?thesis
    unfolding train_test_split_def sp using len(3) by (simp add: i1 i2 j1 j2)
qed

lemma labels_of_positions:
  assumes "distinct ls" "set a \<union> set b = {0..<length ls}" "set a \<inter> set b = {}"
  shows "set (map ((!) ls) a) \<inter> set (map ((!) ls) b) = {}"
    and "set (map ((!) ls) a) \<union> set (map ((!) ls) b) = set ls"
proof -
  have inj: "inj_on ((!) ls) {0..<length ls}"
    using assms(1) by (simp add: inj_on_nth)
  have sub: "set a \<subseteq> {0..<length ls}" "set b \<subseteq> {0..<length ls}"
    using assms(2) by auto
  show "set (map ((!) ls) a) \<inter> set (map ((!) ls) b) = {}"
    using inj_on_image_Int[OF inj sub] assms(3) by simp
  have "(!) ls ` (set a \<union> set b) = set ls"
    unfolding assms(2) by (auto simp: in_set_conv_nth)
  then show "set (map ((!) ls) a) \<union> set (map ((!) ls) b) = set ls"
    by (simp add: image_Un)
qed

text \<open>
  Claim C7. With the generator's permutation for the seed, and at least two rows, the split
  succeeds; which positions go to which part is fixed by the seed and the number of rows
  alone (\<open>split_positions\<close>), so two runs on the same rows give the same parts; the two parts
  have no row label in common and together have all of them; the test part has a fifth of
  the rows, rounded up to a whole row (\<open>n \<le> 5 * n_test < n + 5\<close>), and the training part has
  the others.
\<close>

theorem train_test_split_partition:
  assumes perm: "distinct (rng seed (length (rows X)))" "set (rng seed (length (rows X))) = {0..<length (rows X)}"
    and len: "length (index X) = length (rows X)" "length (s_index y) = length (rows X)"
      "length (s_cells y) = length (rows X)"
    and n: "2 \<le> length (rows X)"
    and lab: "distinct (index X)"
  shows "\<exists>X_train X_test y_train y_test ind_train ind_test.
           train_test_split rng X y (2 / 10) seed = Inr (X_train, X_test, y_train, y_test) \<and>
           split_positions rng (2 / 10) seed (length (rows X)) = Inr (ind_train, ind_test) \<and>
           index X_train = map ((!) (index X)) ind_train \<and> rows X_train = map ((!) (rows X)) ind_train \<and>
           index X_test = map ((!) (index X)) ind_test \<and> rows X_test = map ((!) (rows X)) ind_test \<and>
           s_index y_train = map ((!) (s_index y)) ind_train \<and> s_cells y_train = map ((!) (s_cells y)) ind_train \<and>
           s_index y_test = map ((!) (s_index y)) ind_test \<and> s_cells y_test = map ((!) (s_cells y)) ind_test \<and>
           set (index X_train) \<inter> set (index X_test) = {} \<and>
           set (index X_train) \<union> set (index X_test) = set (index X) \<and>
           length (rows X_test) = (length (rows X) + 4) div 5 \<and>
           length (rows X) \<le> 5 * length (rows X_test) \<and> 5 * length (rows X_test) < length (rows X) + 5 \<and>
           length (rows X_train) = length (rows X) - length (rows X_test)"
proof -
  let ?n = "length (rows X)"
  obtain ind_train ind_test where sp: "split_positions rng (2 / 10) seed ?n = Inr (ind_train, ind_test)"
    and d: "set ind_test \<inter> set ind_train = {}" and u: "set ind_test \<union> set ind_train = {0..<?n}"
    and l: "length ind_test = (?n + 4) div 5" "length ind_train = ?n - (?n + 4) div 5"
    using split_positions_permutation[of rng seed "length (rows X)", OF perm n] by blast
  have sub: "set ind_train \<subseteq> {0..<?n}" "set ind_test \<subseteq> {0..<?n}"
    using u by auto
  note i1 = iloc_in_range[OF sub(1) len(1)] and i2 = iloc_in_range[OF sub(2) len(1)]
  have sub': "set ind_train \<subseteq> {0..<length (s_cells y)}" "set ind_test \<subseteq> {0..<length (s_cells y)}"
    using sub len(3) by simp_all
  have ly: "length (s_index y) = length (s_cells y)"
    using len by simp
  note j1 = s_iloc_in_range[OF sub'(1) ly] and j2 = s_iloc_in_range[OF sub'(2) ly]
  have tts: "train_test_split rng X y (2 / 10) seed =
      Inr (X\<lparr>index := map ((!) (index X)) ind_train, rows := map ((!) (rows X)) ind_train\<rparr>,
           X\<lparr>index := map ((!) (index X)) ind_test, rows := map ((!) (rows X)) ind_test\<rparr>,
           y\<lparr>s_index := map ((!) (s_index y)) ind_train, s_cells := map ((!) (s_cells y)) ind_train\<rparr>,
           y\<lparr>s_index := map ((!) (s_index y)) ind_test, s_cells := map ((!) (s_cells y)) ind_test\<rparr>)"
    unfolding train_test_split_def sp using len(3) by (simp add: i1 i2 j1 j2)
  have u': "set ind_train \<union> set ind_test = {0..<length (index X)}" and d': "set ind_train \<inter> set ind_test = {}"
    using u d len(1) by auto
  note lp = labels_of_positions[OF lab u' d']
  have b: "?n \<le> 5 * ((?n + 4) div 5)" "5 * ((?n + 4) div 5) < ?n + 5"
    by linarith+
  show ?thesis
    using tts sp lp l b by simp
qed

lemma getseries_Inr:
  assumes "getseries df name = Inr y"
  shows "s_index y = index df" and "s_cells y = map (\<lambda>r. cell_of r name) (rows df)"
    and "map_of (dtypes df) name = Some (s_dtype y)"
  using assms by (auto simp: getseries_def split: option.splits)

lemma example_X_y:
  "\<exists>X y. getitems example_data [''site'', ''holiday'', ''year'', ''month'', ''day'', ''hour'', ''dayofweek''] = Inr X \<and>
     getseries example_data target = Inr y \<and>
     index X = [RowNo 0, RowNo 1, RowNo 3, RowNo 4, RowNo 5] \<and> length (rows X) = 5 \<and>
     s_index y = [RowNo 0, RowNo 1, RowNo 3, RowNo 4, RowNo 5] \<and>
     s_cells y = [Float 10, Float 12, Float 14, Float 13, Float 15]"
  by (simp add: getitems_def getseries_def columns_def example_data_def target_def cell_of_def)

lemma example_split_positions: "split_positions example_rng (2 / 10) 42 5 = Inr ([3, 2, 1, 0], [4])"
proof -
  have "[0..<5] = [0, 1, 2, 3, 4::nat]"
    by code_simp
  then show ?thesis
    by (simp add: split_positions_def split_sizes_def example_rng_def)
qed

theorem train_test_split_partition_witness:
  "\<exists>X y X_train X_test y_train y_test.
     getitems example_data [''site'', ''holiday'', ''year'', ''month'', ''day'', ''hour'', ''dayofweek''] = Inr X \<and>
     getseries example_data target = Inr y \<and>
     distinct (example_rng 42 (length (rows X))) \<and>
     set (example_rng 42 (length (rows X))) = {0..<length (rows X)} \<and>
     length (index X) = length (rows X) \<and> length (s_index y) = length (rows X) \<and>
     length (s_cells y) = length (rows X) \<and> 2 \<le> length (rows X) \<and> distinct (index X) \<and>
     train_test_split example_rng X y (2 / 10) 42 = Inr (X_train, X_test, y_train, y_test) \<and>
     index X_train = [RowNo 4, RowNo 3, RowNo 1, RowNo 0] \<and> index X_test = [RowNo 5] \<and>
     s_cells y_train = [Float 13, Float 14, Float 12, Float 10] \<and> s_cells y_test = [Float 15]"
proof -
  obtain X y where X: "getitems example_data [''site'', ''holiday'', ''year'', ''month'', ''day'', ''hour'', ''dayofweek''] = Inr X"
    and y: "getseries example_data target = Inr y"
    and i: "index X = [RowNo 0, RowNo 1, RowNo 3, RowNo 4, RowNo 5]" and n: "length (rows X) = 5"
    and si: "s_index y = [RowNo 0, RowNo 1, RowNo 3, RowNo 4, RowNo 5]"
    and sc: "s_cells y = [Float 10, Float 12, Float 14, Float 13, Float 15]"
    using example_X_y by blast
  have perm: "distinct (example_rng 42 (length (rows X)))"
    "set (example_rng 42 (length (rows X))) = {0..<length (rows X)}"
    by (simp_all add: example_rng_def)
  have len: "length (index X) = length (rows X)" "length (s_index y) = length (rows X)"
    "length (s_cells y) = length (rows X)" "2 \<le> length (rows X)" "distinct (index X)"
    by (simp_all add: i n si sc)
  obtain X_train X_test y_train y_test ind_train ind_test where
    tts: "train_test_split example_rng X y (2 / 10) 42 = Inr (X_train, X_test, y_train, y_test)" and
    sp: "split_positions example_rng (2 / 10) 42 (length (rows X)) = Inr (ind_train, ind_test)" and
    parts: "index X_train = map ((!) (index X)) ind_train" "index X_test = map ((!) (index X)) ind_test"
      "s_cells y_train = map ((!) (s_cells y)) ind_train" "s_cells y_test = map ((!) (s_cells y)) ind_test"
    using train_test_split_partition[of example_rng 42 X y, OF perm len] by blast
  have ind: "ind_train = [3, 2, 1, 0]" "ind_test = [4]"
    using sp example_split_positions by (simp_all add: n)
  show ?thesis
    using X y perm len tts parts by (auto simp: ind i sc)
qed

subsection \<open>One-hot encoding of unseen categories\<close>

lemma encode_unseen:
  assumes f: "fit_onehot_column col = Inr f" and v: "to_cat v = Some k"
    and k: "k \<notin> set (observed (map to_cat col))"
  shows "encode Ignore f v = Inr (replicate (card (set (observed (map to_cat col)))) 0)"
proof (cases f)
  case None
  then have "observed (map to_cat col) = []"
    using fit_onehot_column_Inr(1)[OF f] by simp
  then show ?thesis
    by (simp add: None)
next
  case (Some a)
  obtain m cs where a: "a = (m, cs)"
    by (cases a)
  have cs: "set cs = set (observed (map to_cat col))" "distinct cs"
    using fit_onehot_column_Inr(2)[OF f, of m cs] Some a by simp_all
  have "k \<notin> set cs"
    using k cs(1) by simp
  then have "onehot Ignore cs k = Inr (replicate (length cs) 0)"
    by (rule onehot_ignore_unseen)
  moreover have "length cs = card (set (observed (map to_cat col)))"
    using cs distinct_card[of cs] by simp
  ultimately show ?thesis
    by (simp add: Some a v)
qed

lemma onehot_row_append:
  "length cells1 = length fs1 \<Longrightarrow>
     onehot_row hu (fs1 @ fs2) (cells1 @ cells2) =
       bind (onehot_row hu fs1 cells1) (\<lambda>x. bind (onehot_row hu fs2 cells2) (\<lambda>y. Inr (x @ y)))"
proof (induction fs1 arbitrary: cells1)
  case Nil
  then show ?case
    by (simp add: bind_Inr_right)
next
  case (Cons f fs1)
  then obtain c cs where c: "cells1 = c # cs" "length cs = length fs1"
    by (cases cells1) auto
  show ?case
    unfolding c(1) append_Cons onehot_row.simps Cons.IH[OF c(2)]
    by (cases "encode hu f c"; cases "onehot_row hu fs1 cs"; cases "onehot_row hu fs2 cells2") simp_all
qed

text \<open>
  Claim C5. Let the categorical path of the script (most-frequent imputation, then one-hot
  encoding with \<^verbatim>\<open>handle_unknown='ignore'\<close>) be fitted on some columns. Then it raises on no
  row. And when the cell a row has for one of the columns is a value, of whatever type, that
  is not among the values observed in that column at fitting, the part of the output that
  belongs to this column is all zeros, one zero for each value observed at fitting; it
  starts after the indicators of the columns before it.
\<close>

theorem unseen_category_encodes_to_zeros:
  assumes fit: "fit_transformer cat_transformer (cols1 @ col # cols2) = Inr ft"
    and len: "length cells1 = length cols1"
    and v: "to_cat v = Some k"
    and unseen: "k \<notin> set (observed (map to_cat col))"
  shows "(\<forall>cells. \<exists>x. transform_row ft cells = Inr x) \<and>
         (\<exists>x1 x2. transform_row ft (cells1 @ v # cells2)
                     = Inr (x1 @ replicate (card (set (observed (map to_cat col)))) 0 @ x2) \<and>
                  length x1 = sum_list (map (\<lambda>c. card (set (observed (map to_cat c)))) cols1) \<and>
                  (length cells2 = length cols2 \<longrightarrow>
                     length x2 = sum_list (map (\<lambda>c. card (set (observed (map to_cat c)))) cols2)))"
proof -
  obtain fs where ft: "ft = Fitted_onehot Ignore fs"
    and a: "list_all2 (\<lambda>col f. fit_onehot_column col = Inr f) (cols1 @ col # cols2) fs"
    using fit unfolding cat_transformer_def fit_onehot_Inr by blast
  obtain fs1 fs' where fs: "fs = fs1 @ fs'" and a1: "list_all2 (\<lambda>col f. fit_onehot_column col = Inr f) cols1 fs1"
    and a': "list_all2 (\<lambda>col f. fit_onehot_column col = Inr f) (col # cols2) fs'"
    using a unfolding list_all2_append1 by blast
  obtain f fs2 where fs': "fs' = f # fs2" and f: "fit_onehot_column col = Inr f"
    and a2: "list_all2 (\<lambda>col f. fit_onehot_column col = Inr f) cols2 fs2"
    using a' unfolding list_all2_Cons1 by blast
  have l1: "length cells1 = length fs1"
    using len list_all2_lengthD[OF a1] by simp
  obtain x1 where x1: "onehot_row Ignore fs1 cells1 = Inr x1" "length x1 = sum_list (map n_categories fs1)"
    using onehot_row_ignore_total[of fs1 cells1] l1 by auto
  obtain x2 where x2: "onehot_row Ignore fs2 cells2 = Inr x2"
    "length cells2 = length fs2 \<longrightarrow> length x2 = sum_list (map n_categories fs2)"
    using onehot_row_ignore_total[of fs2 cells2] by auto
  have total: "\<exists>x. transform_row ft cells = Inr x" for cells
    using onehot_row_ignore_total[of fs cells] by (auto simp: ft)
  have "transform_row ft (cells1 @ v # cells2)
      = Inr (x1 @ replicate (card (set (observed (map to_cat col)))) 0 @ x2)"
    by (simp add: ft fs fs' onehot_row_append[OF l1] x1(1) x2(1) encode_unseen[OF f v unseen])
  moreover have "length x1 = sum_list (map (\<lambda>c. card (set (observed (map to_cat c)))) cols1)"
    using x1(2) sum_n_categories[OF a1] by simp
  moreover have "length x2 = sum_list (map (\<lambda>c. card (set (observed (map to_cat c)))) cols2)"
    if "length cells2 = length cols2"
    using that x2(2) sum_n_categories[OF a2] list_all2_lengthD[OF a2] by simp
  ultimately show ?thesis
    using total by blast
qed

lemma example_categorical_fit:
  "\<exists>ft. fit_transformer cat_transformer
          [[Str ''a'', Str ''b'', NaN, Str ''a''], [Boolean False, Boolean True, NaN, Boolean False]] = Inr ft"
  unfolding cat_transformer_def
  by (rule fit_onehot_ok) (simp_all add: to_cat_def same_kind_def)

theorem unseen_category_encodes_to_zeros_witness:
  "\<exists>ft. fit_transformer cat_transformer
          [[Str ''a'', Str ''b'', NaN, Str ''a''], [Boolean False, Boolean True, NaN, Boolean False]] = Inr ft \<and>
        to_cat (Str ''c'') = Some (Text ''c'') \<and>
        Text ''c'' \<notin> set (observed (map to_cat [Str ''a'', Str ''b'', NaN, Str ''a''])) \<and>
        to_cat (Integer 7) = Some (Number 7) \<and>
        Number 7 \<notin> set (observed (map to_cat [Boolean False, Boolean True, NaN, Boolean False])) \<and>
        transform_row ft [Str ''c'', Integer 7] = Inr [0, 0, 0, 0]"
proof -
  define site where "site = [Str ''a'', Str ''b'', NaN, Str ''a'']"
  define holiday where "holiday = [Boolean False, Boolean True, NaN, Boolean False]"
  obtain ft where ft0: "fit_transformer cat_transformer [site, holiday] = Inr ft"
    using example_categorical_fit unfolding site_def holiday_def by auto
  have ft: "fit_transformer cat_transformer ([] @ site # [holiday]) = Inr ft"
    and ft': "fit_transformer cat_transformer ([site] @ holiday # []) = Inr ft"
    using ft0 by simp_all
  have v1: "to_cat (Str ''c'') = Some (Text ''c'')" and v2: "to_cat (Integer 7) = Some (Number 7)"
    by (simp_all add: to_cat_def)
  have o1: "observed (map to_cat site) = [Text ''a'', Text ''b'', Text ''a'']"
    and o2: "observed (map to_cat holiday) = [Number 0, Number 1, Number 0]"
    by (simp_all add: to_cat_def site_def holiday_def)
  have u1: "Text ''c'' \<notin> set (observed (map to_cat site))"
    and u2: "Number 7 \<notin> set (observed (map to_cat holiday))"
    unfolding o1 o2 by simp_all
  have c1: "card (set (observed (map to_cat site))) = 2"
    and c2: "card (set (observed (map to_cat holiday))) = 2"
    unfolding o1 o2 card_set by simp_all
  have l1: "length ([] :: cell list) = length ([] :: cell list list)"
    and l2: "length [Str ''c''] = length [site]"
    by simp_all
  obtain x2 where a: "transform_row ft [Str ''c'', Integer 7] = Inr ([0, 0] @ x2)" "length x2 = 2"
    using unseen_category_encodes_to_zeros[OF ft l1 v1 u1, of "[Integer 7]"]
    by (auto simp: c1 c2 eval_nat_numeral)
  obtain x1 where b: "transform_row ft [Str ''c'', Integer 7] = Inr (x1 @ [0, 0])" "length x1 = 2"
    using unseen_category_encodes_to_zeros[OF ft' l2 v2 u2, of "[]"]
    by (auto simp: c1 c2 eval_nat_numeral)
  have "length x1 = length [0, 0 :: real]"
    using b(2) by simp
  then have "(x1 @ [0, 0] = [0, 0] @ x2) = (x1 = [0, 0] \<and> [0, 0] = x2)"
    by (intro append_eq_append_conv disjI1)
  moreover have "x1 @ [0, 0] = [0, 0] @ x2"
    using a(1) unfolding b(1) by (simp only: sum.inject)
  ultimately have "x1 = [0, 0]"
    by blast
  then show ?thesis
    using ft0 b(1) v1 v2 u1 u2 unfolding site_def holiday_def by simp
qed

subsection \<open>Model search\<close>

lemma fit_and_score_invalid:
  "pipeline_set_params pipe ps = Inl e \<Longrightarrow> fit_and_score solve pipe ps X y tt = Inl e"
  by (simp add: fit_and_score_def)

lemma kfold_5: "5 \<le> n \<Longrightarrow> \<exists>f fs. kfold 5 n = Inr (f # fs)"
  by (simp add: kfold_def upt_rec[of 0 5])

text \<open>The grid is the full cross product: 27 candidates, plain least squares first.\<close>

lemma candidates_param_grid:
  "\<exists>c cs. parameter_grid param_grid = Inr (c # cs) \<and> length cs = 26 \<and>
     c = [(''model'', Est (Model (new LinearRegression))), (''model__alpha'', Val (P_float (1 / 10))),
          (''poly_features__degree'', Val (P_int 1))]"
  by (simp add: parameter_grid_def param_grid_def)

lemma least_squares_rejects_alpha:
  "pipeline_set_params (pipeline pre)
     [(''model'', Est (Model (new LinearRegression))), (''model__alpha'', Val (P_float a)),
      (''poly_features__degree'', Val (P_int d))] = Inl (ValueError ''Invalid parameter alpha'')"
  by (simp add: pipeline_set_params_def pipeline_def new_def)

text \<open>
  Of the 27 candidates, the nine that pair plain least squares with a regularization
  strength are refused when their parameters are set; the other eighteen are accepted.
\<close>

lemma rejected_cells:
  "parameter_grid param_grid = Inr cs \<Longrightarrow>
   map (\<lambda>c. pipeline_set_params (pipeline pre) c = Inl (ValueError ''Invalid parameter alpha'')) cs
     = replicate 9 True @ replicate 18 False"
  by (auto simp add: parameter_grid_def param_grid_def pipeline_set_params_def pipeline_def new_def eval_nat_numeral)

text \<open>The search on the script's grid ends with an error, whatever the training set.\<close>

lemma grid_search_fit_param_grid:
  "grid_search_fit solve (pipeline pre) param_grid 5 X y =
     Inl (ValueError (if length (rows X) < 5
                      then ''Cannot have number of splits greater than the number of samples''
                      else ''Invalid parameter alpha''))"
proof (cases "length (rows X) < 5")
  case True
  then show ?thesis
    using candidates_param_grid by (auto simp: grid_search_fit_def kfold_def)
next
  case False
  then obtain f fs where k: "kfold 5 (length (rows X)) = Inr (f # fs)"
    using kfold_5[of "length (rows X)"] by auto
  obtain c cs where c: "parameter_grid param_grid = Inr (c # cs)"
    "c = [(''model'', Est (Model (new LinearRegression))), (''model__alpha'', Val (P_float (1 / 10))),
          (''poly_features__degree'', Val (P_int 1))]"
    using candidates_param_grid by blast
  have "fit_and_score solve (pipeline pre) c X y f = Inl (ValueError ''Invalid parameter alpha'')"
    unfolding c(2) by (rule fit_and_score_invalid) (rule least_squares_rejects_alpha)
  then show ?thesis
    using False by (simp add: grid_search_fit_def k c(1))
qed

text \<open>Lines 31 to 82 as a whole: on the script's grid the run never gets a model.\<close>

lemma model_search_never_selects: "\<exists>e. model_search solve rng param_grid data = Inl e"
proof -
  have g: "\<exists>e. (case x of (X_train, X_test, y_train, y_test) \<Rightarrow>
      grid_search_fit solve (pipeline pre) param_grid 5 X_train y_train) = Inl e"
    for x :: "dataframe \<times> dataframe \<times> series \<times> series" and pre
    by (cases x) (simp add: grid_search_fit_param_grid)
  have b: "\<exists>e. bind m f = Inl e" if "\<And>x. \<exists>e. f x = Inl e" for m :: "error + 'a" and f :: "'a \<Rightarrow> error + 'b"
    using that by (cases m) simp_all
  show ?thesis
    unfolding model_search_def by (intro b g)
qed

text \<open>
  Claim C1. The grid is the full cross product of three degrees, three estimators and three
  regularization strengths, 27 candidates. The search does not evaluate it: the nine
  candidates that pair plain least squares with a regularization strength are refused when
  their parameters are set, because that estimator has no such parameter, and the first
  refusal ends the search. So on every training set the search ends with an error and
  selects nothing (with fewer than five rows the folds cannot even be formed).
\<close>

theorem grid_search_rejects_least_squares_cells:
  "(\<exists>candidates. parameter_grid param_grid = Inr candidates \<and> length candidates = 27 \<and>
      map (\<lambda>c. pipeline_set_params (pipeline pre) c = Inl (ValueError ''Invalid parameter alpha'')) candidates
        = replicate 9 True @ replicate 18 False) \<and>
   grid_search_fit solve (pipeline pre) param_grid 5 X y =
     Inl (ValueError (if length (rows X) < 5
                      then ''Cannot have number of splits greater than the number of samples''
                      else ''Invalid parameter alpha''))"
proof -
  obtain c cs where c: "parameter_grid param_grid = Inr (c # cs)" "length cs = 26"
    using candidates_param_grid by blast
  then have "length (c # cs) = 27"
    by simp
  then show ?thesis
    using c(1) rejected_cells[OF c(1), of pre] grid_search_fit_param_grid[of solve pre X y] by blast
qed

subsection \<open>Prediction column\<close>

lemma set_index_labels:
  "set_index name df = Inr df' \<Longrightarrow> index df' = map (\<lambda>r. Key (cell_of r name)) (rows df)"
  by (auto simp: set_index_def split: if_splits)

lemma set_index_ok: "name \<in> set (columns df) \<Longrightarrow> \<exists>df'. set_index name df = Inr df'"
  by (simp add: set_index_def)

lemma loc_set_missing:
  "l \<in> set labels \<Longrightarrow> l \<notin> set (index df) \<Longrightarrow> loc_set labels name cells df = Inl (KeyError ''labels not in index'')"
  by (auto simp: loc_set_def list_ex_iff)

text \<open>
  Claim C2. The merge does not fill the prediction column: it raises. Line 125 makes the
  timestamps the row labels, so the labels of the test rows, which are the row numbers the
  loader gave, are no longer labels of the dataset when line 127 looks them up. This holds
  for every dataset and every non-empty test part.
\<close>

theorem merge_predictions_raises:
  assumes "test_index \<noteq> []"
    and "list_all (\<lambda>l. case l of RowNo i \<Rightarrow> True | Key c \<Rightarrow> False) test_index"
  shows "merge_predictions data test_index y_pred =
           Inl (KeyError (if ''timestamp'' \<in> set (columns data) then ''labels not in index'' else ''timestamp''))"
proof (cases "''timestamp'' \<in> set (columns data)")
  case False
  then show ?thesis
    by (simp add: merge_predictions_def set_index_def)
next
  case True
  then obtain d where d: "set_index ''timestamp'' data = Inr d"
    using set_index_ok by blast
  obtain l ls where l: "test_index = l # ls"
    using assms(1) by (cases test_index) auto
  then obtain i where i: "l = RowNo i"
    using assms(2) by (cases l) auto
  let ?d = "setitem ''predicted_consumption'' Float64 (map (\<lambda>r. NaN) (rows d)) d"
  have "index ?d = map (\<lambda>r. Key (cell_of r ''timestamp'')) (rows data)"
    using set_index_labels[OF d] by (simp add: setitem_index)
  then have "l \<notin> set (index ?d)"
    by (auto simp: i)
  then have "loc_set test_index ''predicted_consumption'' (map Float y_pred) ?d = Inl (KeyError ''labels not in index'')"
    by (intro loc_set_missing[of l]) (simp add: l)
  then show ?thesis
    using True by (simp add: merge_predictions_def d)
qed

theorem merge_predictions_raises_witness:
  "[RowNo 5] \<noteq> [] \<and> list_all (\<lambda>l. case l of RowNo i \<Rightarrow> True | Key c \<Rightarrow> False) [RowNo 5] \<and>
   RowNo 5 \<in> set (index example_data) \<and>
   merge_predictions example_data [RowNo 5] [15] = Inl (KeyError ''labels not in index'')"
  using merge_predictions_raises[of "[RowNo 5]" example_data "[15]"]
  by (simp add: example_data_def columns_def)

subsection \<open>Importance table\<close>

lemma importance_features:
  assumes fit: "column_transformer_fit (preprocessor num cat) X = Inr fct"
    and numobs: "list_all (\<lambda>c. observed (map to_num (column_cells X c)) \<noteq> []) num"
    and catobs: "list_ex (\<lambda>c. observed (map to_cat (column_cells X c)) \<noteq> []) cat"
  shows "length num < n_features_pre fct"
proof -
  have "filter (\<lambda>c. observed (map to_num (column_cells X c)) \<noteq> []) num = num"
    using numobs by (simp add: list_all_iff)
  moreover obtain c where c: "c \<in> set cat" "observed (map to_cat (column_cells X c)) \<noteq> []"
    using catobs by (auto simp: list_ex_iff)
  have "0 < card (set (observed (map to_cat (column_cells X c))))"
    using c(2) by (simp add: card_gt_0_iff)
  moreover have "card (set (observed (map to_cat (column_cells X c))))
      \<le> sum_list (map (\<lambda>c. card (set (observed (map to_cat (column_cells X c))))) cat)"
    using c(1) by (intro member_le_sum_list) simp_all
  ultimately show ?thesis
    unfolding preprocessor_n_features[OF fit] by simp
qed

text \<open>
  Claim C3. The join does not succeed for every fitted model. The names are asked for the
  numeric columns only (line 108), while the expansion step was fitted on the numeric
  columns and the one-hot columns together: as soon as one categorical column has an
  observed value (and no numeric column is empty), every successful fit has more input
  features than names, and the request for the names raises. This does not depend on the
  estimator or on the coefficients. And the fit does succeed when the values of each
  categorical column are of one kind (all strings, say).
\<close>

theorem importance_table_raises_with_categorical_columns:
  assumes cols: "set num \<union> set cat \<subseteq> set (columns X)"
    and rows: "rows X \<noteq> []"
    and y: "targets y = Inr ys"
    and numobs: "list_all (\<lambda>c. observed (map to_num (column_cells X c)) \<noteq> []) num"
    and catobs: "list_ex (\<lambda>c. observed (map to_cat (column_cells X c)) \<noteq> []) cat"
  shows "(\<forall>f. pipeline_fit solve (pipeline (preprocessor num cat)) X y = Inr f \<longrightarrow>
            length num < n_features_in f \<and>
            feature_importance_df f num =
              Inl (ValueError ''input_features should have length equal to number of features'')) \<and>
         (list_all (\<lambda>c. same_kind (observed (map to_cat (column_cells X c)))) cat \<longrightarrow>
            (\<exists>f. pipeline_fit solve (pipeline (preprocessor num cat)) X y = Inr f))"
proof (intro conjI allI impI)
  fix f assume f: "pipeline_fit solve (pipeline (preprocessor num cat)) X y = Inr f"
  then obtain fct where fit: "column_transformer_fit (preprocessor num cat) X = Inr fct"
    and n: "n_features_in f = n_features_pre fct"
    unfolding pipeline_def pipeline_fit_Inr by auto
  show "length num < n_features_in f"
    unfolding n by (rule importance_features[OF fit numobs catobs])
  then show "feature_importance_df f num =
      Inl (ValueError ''input_features should have length equal to number of features'')"
    by (simp add: feature_importance_df_def get_feature_names_out_def)
next
  assume kinds: "list_all (\<lambda>c. same_kind (observed (map to_cat (column_cells X c)))) cat"
  have "list_ex (\<lambda>c. observed (map to_num (column_cells X c)) \<noteq> []) num" if "num \<noteq> []"
    using that numobs by (cases num) simp_all
  then obtain fct where fit: "column_transformer_fit (preprocessor num cat) X = Inr fct"
    using preprocessor_fit_ok[OF cols _ catobs kinds] by blast
  have "n_features_pre fct \<noteq> 0"
    using importance_features[OF fit numobs catobs] by simp
  then show "\<exists>f. pipeline_fit solve (pipeline (preprocessor num cat)) X y = Inr f"
    unfolding pipeline_def using pipeline_fit_ok[OF fit rows y] by blast
qed

theorem importance_table_raises_with_categorical_columns_witness:
  "\<exists>X y f. getitems example_data [''site'', ''holiday'', ''year'', ''month'', ''day'', ''hour'', ''dayofweek''] = Inr X \<and>
     getseries example_data target = Inr y \<and>
     set [''year'', ''month'', ''day'', ''hour'', ''dayofweek''] \<union> set [''site''] \<subseteq> set (columns X) \<and>
     rows X \<noteq> [] \<and> targets y = Inr [10, 12, 14, 13, 15] \<and>
     list_all (\<lambda>c. observed (map to_num (column_cells X c)) \<noteq> []) [''year'', ''month'', ''day'', ''hour'', ''dayofweek''] \<and>
     list_ex (\<lambda>c. observed (map to_cat (column_cells X c)) \<noteq> []) [''site''] \<and>
     list_all (\<lambda>c. same_kind (observed (map to_cat (column_cells X c)))) [''site''] \<and>
     pipeline_fit (\<lambda>r A b. ([], 0))
       (pipeline (preprocessor [''year'', ''month'', ''day'', ''hour'', ''dayofweek''] [''site''])) X y = Inr f \<and>
     feature_importance_df f [''year'', ''month'', ''day'', ''hour'', ''dayofweek''] =
       Inl (ValueError ''input_features should have length equal to number of features'')"
proof -
  obtain X y where X: "getitems example_data [''site'', ''holiday'', ''year'', ''month'', ''day'', ''hour'', ''dayofweek''] = Inr X"
    and y: "getseries example_data target = Inr y"
    and sc: "s_cells y = [Float 10, Float 12, Float 14, Float 13, Float 15]"
    using example_X_y by blast
  note rX = getitems_Inr(2)[OF X] and cX = getitems_Inr(4)[OF X]
  have cols: "set [''year'', ''month'', ''day'', ''hour'', ''dayofweek''] \<union> set [''site''] \<subseteq> set (columns X)"
    by (simp add: cX)
  have rows: "rows X \<noteq> []"
    by (simp add: rX example_data_def)
  have t: "targets y = Inr [10, 12, 14, 13, 15]"
    by (simp add: targets_def sc to_num_def)
  have numobs: "list_all (\<lambda>c. observed (map to_num (column_cells X c)) \<noteq> []) [''year'', ''month'', ''day'', ''hour'', ''dayofweek'']"
    by (simp add: column_cells_def rX example_data_def cell_of_def to_num_def)
  have catobs: "list_ex (\<lambda>c. observed (map to_cat (column_cells X c)) \<noteq> []) [''site'']"
    by (simp add: column_cells_def rX example_data_def cell_of_def to_cat_def)
  have kinds: "list_all (\<lambda>c. same_kind (observed (map to_cat (column_cells X c)))) [''site'']"
    by (simp add: column_cells_def rX example_data_def cell_of_def to_cat_def same_kind_def)
  show ?thesis
    using importance_table_raises_with_categorical_columns[OF cols rows t numobs catobs, of "\<lambda>r A b. ([], 0)"]
      X y cols rows t numobs catobs kinds
    by blast
qed

subsection \<open>The seven-record example\<close>

lemma week_loaded_dtypes:
  "dtypes (read_csv week_names (week_records c s h)) =
     [(''timestamp'', Object), (''consumption'', Float64), (''site'', Object),
      (''holiday'', infer_dtype [Boolean False, Boolean False, Boolean False, Boolean True, Boolean False, Boolean False, h])]"
  by (simp add: read_csv_def week_names_def week_records_def week_record_def cell_of_def infer_dtype_def)

lemma week_derived:
  "feature_deriver example_parse Int64 (read_csv week_names (week_records c s h))
     = Inr (week_data (infer_dtype [Boolean False, Boolean False, Boolean False, Boolean True, Boolean False, Boolean False, h]) c s h)"
  by (simp add: feature_deriver_def getitem_def columns_def read_csv_def week_names_def week_records_def
      week_record_def to_datetime_def cell_of_def infer_dtype_def eval_nat_numeral
      example_parse_def setitem_def dropna_def isna_def assign_dt_def dt_def week_data_def derived_row_def at_hour_def
      dayofweek_def days_from_civil_def)

lemma week_holiday_dtype:
  "infer_dtype [Boolean False, Boolean False, Boolean False, Boolean True, Boolean False, Boolean False, Boolean b] = Bool"
  "infer_dtype [Boolean False, Boolean False, Boolean False, Boolean True, Boolean False, Boolean False, NaN] = Object"
  by (simp_all add: infer_dtype_def)

lemma week_dtypes:
  "dtypes (week_data hdt c s h) =
     [(''timestamp'', Datetime64), (''consumption'', Float64), (''site'', Object), (''holiday'', hdt),
      (''year'', Int64), (''month'', Int64), (''day'', Int64), (''hour'', Int64), (''dayofweek'', Int64)]"
  by (simp add: week_data_def)

lemma week_groups:
  "features (week_data hdt c s h) = Inr [''site'', ''holiday'', ''year'', ''month'', ''day'', ''hour'', ''dayofweek'']"
  "num_cols (week_data Bool c s h) = Inr [''year'', ''month'', ''day'', ''hour'', ''dayofweek'']"
  "num_cols (week_data Object c s h) = Inr [''year'', ''month'', ''day'', ''hour'', ''dayofweek'']"
  "cat_cols (week_data Bool c s h) = [''site'']"
  "cat_cols (week_data Object c s h) = [''site'', ''holiday'']"
  by (simp_all add: features_def num_cols_def cat_cols_def index_drop_def select_dtypes_def columns_def
      target_def week_dtypes)

lemma week_split_positions: "split_positions example_rng (2 / 10) 42 7 = Inr ([4, 3, 2, 1, 0], [6, 5])"
proof -
  have "[0..<7] = [0, 1, 2, 3, 4, 5, 6::nat]"
    by code_simp
  then show ?thesis
    by (simp add: split_positions_def split_sizes_def example_rng_def)
qed

lemma week_split:
  "\<exists>X y. getitems (week_data hdt c s h) [''site'', ''holiday'', ''year'', ''month'', ''day'', ''hour'', ''dayofweek''] = Inr X \<and>
     getseries (week_data hdt c s h) target = Inr y \<and>
     length (rows X) = 7 \<and> length (index X) = 7 \<and> length (s_index y) = 7 \<and> length (s_cells y) = 7 \<and>
     distinct (index X) \<and>
     rows X ! 6 = feature_row 6 s h \<and> rows X ! 5 = feature_row 5 ''b'' (Boolean False) \<and>
     s_cells y ! 6 = Float c \<and> s_cells y ! 5 = Float 13 \<and>
     train_test_split example_rng X y (2 / 10) 42
       = Inr (week_train hdt, week_test hdt s h, week_train_targets, week_test_targets c)"
proof -
  let ?fs = "[''site'', ''holiday'', ''year'', ''month'', ''day'', ''hour'', ''dayofweek'']"
  define X where "X = (week_data hdt c s h)\<lparr>dtypes := map (\<lambda>c'. (c', the (map_of (dtypes (week_data hdt c s h)) c'))) ?fs,
      rows := map (\<lambda>r. map (\<lambda>c. (c, cell_of r c)) ?fs) (rows (week_data hdt c s h))\<rparr>"
  define y where "y = \<lparr>s_index = index (week_data hdt c s h), s_dtype = Float64,
      s_cells = map (\<lambda>r. cell_of r target) (rows (week_data hdt c s h))\<rparr>"
  have gX: "getitems (week_data hdt c s h) ?fs = Inr X"
    by (simp add: getitems_def columns_def week_dtypes X_def)
  have gy: "getseries (week_data hdt c s h) target = Inr y"
    by (simp add: getseries_def target_def week_dtypes y_def)
  have n: "length (rows X) = 7" and li: "length (index X) = 7" and ls: "length (s_index y) = 7" "length (s_cells y) = 7"
    and d: "distinct (index X)"
    by (simp_all add: X_def y_def week_data_def)
  have sp: "split_positions example_rng (2 / 10) 42 (length (rows X)) = Inr ([4, 3, 2, 1, 0], [6, 5])"
    unfolding n by (rule week_split_positions)
  have sub: "set [4, 3, 2, 1, 0::nat] \<subseteq> {0..<length (rows X)}" "set [6, 5::nat] \<subseteq> {0..<length (rows X)}"
    by (simp_all add: n)
  have len: "length (index X) = length (rows X)" "length (s_index y) = length (rows X)"
    "length (s_cells y) = length (rows X)"
    by (simp_all add: n li ls)
  have a: "X\<lparr>index := map ((!) (index X)) [4, 3, 2, 1, 0], rows := map ((!) (rows X)) [4, 3, 2, 1, 0]\<rparr> = week_train hdt"
    by (simp add: X_def week_data_def week_train_def derived_row_def feature_row_def cell_of_def)
  have b: "X\<lparr>index := map ((!) (index X)) [6, 5], rows := map ((!) (rows X)) [6, 5]\<rparr> = week_test hdt s h"
    by (simp add: X_def week_data_def week_test_def derived_row_def feature_row_def cell_of_def)
  have c: "y\<lparr>s_index := map ((!) (s_index y)) [4, 3, 2, 1, 0], s_cells := map ((!) (s_cells y)) [4, 3, 2, 1, 0]\<rparr>
      = week_train_targets"
    by (simp add: y_def week_data_def week_train_targets_def derived_row_def cell_of_def target_def)
  have d': "y\<lparr>s_index := map ((!) (s_index y)) [6, 5], s_cells := map ((!) (s_cells y)) [6, 5]\<rparr>
      = week_test_targets c"
    by (simp add: y_def week_data_def week_test_targets_def derived_row_def cell_of_def target_def)
  have e: "rows X ! 6 = feature_row 6 s h" "rows X ! 5 = feature_row 5 ''b'' (Boolean False)"
    "s_cells y ! 6 = Float c" "s_cells y ! 5 = Float 13"
    by (simp_all add: X_def y_def week_data_def derived_row_def feature_row_def cell_of_def target_def)
  show ?thesis
    using gX gy n li ls d e train_test_split_explicit[OF sp sub len, unfolded a b c d'] by blast
qed

subsection \<open>When the search returns\<close>

lemma kfold_from_range:
  "(tr, te) \<in> set (kfold_from start sizes n) \<Longrightarrow> start + sum_list sizes \<le> n \<Longrightarrow> set tr \<union> set te \<subseteq> {0..<n}"
proof (induction sizes arbitrary: start)
  case Nil
  then show ?case by simp
next
  case (Cons a sizes)
  show ?case
  proof (cases "(tr, te) = ([0..<start] @ [start + a..<n], [start..<start + a])")
    case True
    then show ?thesis
      using Cons.prems(2) by auto
  next
    case False
    then have m: "(tr, te) \<in> set (kfold_from (start + a) sizes n)"
      using Cons.prems(1) by auto
    have b: "start + a + sum_list sizes \<le> n"
      using Cons.prems(2) by simp
    show ?thesis
      using Cons.IH[OF m b] .
  qed
qed

lemma fold_sizes_5:
  "sum_list (map (\<lambda>i. n div 5 + (if i < n mod 5 then 1 else 0)) [0, 1, 2, 3, 4::nat]) = n"
  by simp presburger

lemma upt_5: "[0..<5] = [0, 1, 2, 3, 4::nat]"
  by code_simp

lemma kfold_5_folds:
  assumes "5 \<le> n"
  shows "\<exists>tr te folds. kfold 5 n = Inr ((tr, te) # folds) \<and> tr \<noteq> [] \<and>
           (\<forall>(tr', te') \<in> set ((tr, te) # folds). set tr' \<union> set te' \<subseteq> {0..<n})"
proof -
  let ?sizes = "map (\<lambda>i. n div 5 + (if i < n mod 5 then 1 else 0)) [0, 1, 2, 3, 4::nat]"
  have k: "kfold 5 n = Inr (kfold_from 0 ?sizes n)"
    using assms by (simp add: kfold_def upt_5)
  have r: "set tr' \<union> set te' \<subseteq> {0..<n}" if "(tr', te') \<in> set (kfold_from 0 ?sizes n)" for tr' te'
    using that by (rule kfold_from_range) (simp only: fold_sizes_5 add_0 order_refl)
  have "n div 5 + (if 0 < n mod 5 then 1 else 0) < n"
    using assms by presburger
  then have ne: "[0..<0] @ [0 + (n div 5 + (if 0 < n mod 5 then 1 else 0))..<n] \<noteq> []"
    by simp
  obtain folds where f: "kfold_from 0 ?sizes n
      = ([0..<0] @ [0 + (n div 5 + (if 0 < n mod 5 then 1 else 0))..<n], [0..<0 + (n div 5 + (if 0 < n mod 5 then 1 else 0))]) # folds"
    by simp
  show ?thesis
    using k r ne unfolding f by blast
qed

lemma best_index_from_bound:
  "best_index_from b i m xs = b \<or> (i \<le> best_index_from b i m xs \<and> best_index_from b i m xs < i + length xs)"
proof (induction xs arbitrary: b i m)
  case Nil
  then show ?case by simp
next
  case (Cons x xs)
  show ?case
  proof (cases x)
    case None
    then show ?thesis
      using Cons.IH[of b "Suc i" m] by (cases m) auto
  next
    case (Some s)
    show ?thesis
    proof (cases m)
      case None
      then show ?thesis
        using Cons.IH[of i "Suc i" "Some s"] Some by auto
    next
      case (Some b')
      then show ?thesis
        using Cons.IH[of i "Suc i" "Some s"] Cons.IH[of b "Suc i" m] \<open>x = Some s\<close> by auto
    qed
  qed
qed

lemma best_index_less: "means \<noteq> [] \<Longrightarrow> best_index means < length means"
  using best_index_from_bound[of 0 0 None means] by (auto simp: best_index_def)

lemma score_not_failed: "score f X y \<noteq> Fit_failed"
  by (simp add: score_def split: sum.splits option.splits)

lemma grid_search_fit_ok:
  assumes cands: "parameter_grid grid = Inr cands" "cands \<noteq> []"
    and sp: "\<forall>c\<in>set cands. \<exists>pf r. pipeline_set_params pipe c
                = Inr [(''preprocessor'', Preprocessor pre), (''poly_features'', Poly pf), (''model'', Model r)]"
    and n: "5 \<le> length (rows X)"
    and len: "length (index X) = length (rows X)" "length (s_index y) = length (rows X)"
      "length (s_cells y) = length (rows X)"
    and fitok: "\<And>idx pf r. idx \<noteq> [] \<Longrightarrow> set idx \<subseteq> {0..<length (rows X)} \<Longrightarrow>
        \<exists>f. pipeline_fit solve [(''preprocessor'', Preprocessor pre), (''poly_features'', Poly pf), (''model'', Model r)]
              (X\<lparr>index := map ((!) (index X)) idx, rows := map ((!) (rows X)) idx\<rparr>)
              (y\<lparr>s_index := map ((!) (s_index y)) idx, s_cells := map ((!) (s_cells y)) idx\<rparr>) = Inr f"
    and refit: "\<And>pf r. \<exists>f. pipeline_fit solve
          [(''preprocessor'', Preprocessor pre), (''poly_features'', Poly pf), (''model'', Model r)] X y = Inr f"
  shows "\<exists>best_params f pf r. grid_search_fit solve pipe grid 5 X y = Inr (best_params, f) \<and>
           pipeline_fit solve [(''preprocessor'', Preprocessor pre), (''poly_features'', Poly pf), (''model'', Model r)] X y
             = Inr f"
proof -
  let ?n = "length (rows X)"
  obtain tr te folds where k: "kfold 5 ?n = Inr ((tr, te) # folds)" and tr: "tr \<noteq> []"
    and range: "\<forall>(tr', te') \<in> set ((tr, te) # folds). set tr' \<union> set te' \<subseteq> {0..<?n}"
    using kfold_5_folds[OF n] by blast
  have ly: "length (s_index y) = length (s_cells y)"
    using len by simp
  have fs: "fit_and_score solve pipe c X y (tr', te') =
      Inr (case pipeline_fit solve [(''preprocessor'', Preprocessor pre), (''poly_features'', Poly pf), (''model'', Model r)]
                  (X\<lparr>index := map ((!) (index X)) tr', rows := map ((!) (rows X)) tr'\<rparr>)
                  (y\<lparr>s_index := map ((!) (s_index y)) tr', s_cells := map ((!) (s_cells y)) tr'\<rparr>) of
             Inl e \<Rightarrow> Fit_failed
           | Inr f \<Rightarrow> score f (X\<lparr>index := map ((!) (index X)) te', rows := map ((!) (rows X)) te'\<rparr>)
                               (y\<lparr>s_index := map ((!) (s_index y)) te', s_cells := map ((!) (s_cells y)) te'\<rparr>))"
    if "(tr', te') \<in> set ((tr, te) # folds)"
      and "pipeline_set_params pipe c = Inr [(''preprocessor'', Preprocessor pre), (''poly_features'', Poly pf), (''model'', Model r)]"
    for c tr' te' pf r
  proof -
    have sub: "set tr' \<subseteq> {0..<?n}" "set te' \<subseteq> {0..<?n}"
      using range that(1) by auto
    have sub': "set tr' \<subseteq> {0..<length (s_cells y)}" "set te' \<subseteq> {0..<length (s_cells y)}"
      using sub len(3) by simp_all
    show ?thesis
      by (simp add: fit_and_score_def that(2) iloc_in_range[OF sub(1) len(1)] iloc_in_range[OF sub(2) len(1)]
          s_iloc_in_range[OF sub'(1) ly] s_iloc_in_range[OF sub'(2) ly])
  qed
  have each: "\<exists>rs. sequence (map (fit_and_score solve pipe c X y) ((tr, te) # folds)) = Inr rs"
    if c: "c \<in> set cands" for c
  proof (rule sequence_Inr)
    obtain pf r where p: "pipeline_set_params pipe c
        = Inr [(''preprocessor'', Preprocessor pre), (''poly_features'', Poly pf), (''model'', Model r)]"
      using sp c by blast
    show "list_all (\<lambda>m. \<exists>x. m = Inr x) (map (fit_and_score solve pipe c X y) ((tr, te) # folds))"
      unfolding list_all_iff using fs[OF _ p] by auto
  qed
  have "list_all (\<lambda>m. \<exists>x. m = Inr x)
          (map (\<lambda>c. sequence (map (fit_and_score solve pipe c X y) ((tr, te) # folds))) cands)"
    unfolding list_all_iff using each by auto
  then obtain results where res: "sequence (map (\<lambda>c. sequence (map (fit_and_score solve pipe c X y) ((tr, te) # folds))) cands)
      = Inr results"
    using sequence_Inr by blast
  then have all2: "list_all2 (\<lambda>c rs. sequence (map (fit_and_score solve pipe c X y) ((tr, te) # folds)) = Inr rs) cands results"
    by (simp only: sequence_map_Inr)
  obtain c0 cs where c0: "cands = c0 # cs"
    using cands(2) by (cases cands) auto
  obtain rs0 rss where r0: "results = rs0 # rss"
    and s0: "sequence (map (fit_and_score solve pipe c0 X y) ((tr, te) # folds)) = Inr rs0"
    using all2 unfolding c0 list_all2_Cons1 by blast
  obtain pf0 r0' where p0: "pipeline_set_params pipe c0
      = Inr [(''preprocessor'', Preprocessor pre), (''poly_features'', Poly pf0), (''model'', Model r0')]"
    using sp c0 by auto
  have trr: "set tr \<subseteq> {0..<?n}"
    using range by auto
  obtain f0 where f0: "pipeline_fit solve [(''preprocessor'', Preprocessor pre), (''poly_features'', Poly pf0), (''model'', Model r0')]
              (X\<lparr>index := map ((!) (index X)) tr, rows := map ((!) (rows X)) tr\<rparr>)
              (y\<lparr>s_index := map ((!) (s_index y)) tr, s_cells := map ((!) (s_cells y)) tr\<rparr>) = Inr f0"
    using fitok[OF tr trr] by blast
  have "\<exists>r rs. rs0 = r # rs \<and> r \<noteq> Fit_failed"
    using s0 fs[OF _ p0, of tr te] f0 score_not_failed by (auto simp: bind_eq_Inr)
  then have nf: "\<not> list_all (list_all (\<lambda>r. r = Fit_failed)) results"
    unfolding r0 by auto
  have "length results = length cands"
    using list_all2_lengthD[OF all2] by simp
  then have "best_index (map mean_test_score results) < length cands"
    using best_index_less[of "map mean_test_score results"] r0 by auto
  then have "cands ! best_index (map mean_test_score results) \<in> set cands"
    by simp
  then obtain pf r where p: "pipeline_set_params pipe (cands ! best_index (map mean_test_score results))
      = Inr [(''preprocessor'', Preprocessor pre), (''poly_features'', Poly pf), (''model'', Model r)]"
    using sp by blast
  obtain f where f: "pipeline_fit solve
      [(''preprocessor'', Preprocessor pre), (''poly_features'', Poly pf), (''model'', Model r)] X y = Inr f"
    using refit by blast
  have "grid_search_fit solve pipe grid 5 X y = Inr (cands ! best_index (map mean_test_score results), f)"
    unfolding grid_search_fit_def cands(1) k bind_Inr res using nf by (simp add: Let_def p f)
  then show ?thesis
    using f by blast
qed

lemma pipeline_fit_complete:
  assumes cols: "set num \<union> set cat \<subseteq> set (columns X)" and rows: "rows X \<noteq> []" and num: "num \<noteq> []"
    and nums: "\<forall>r\<in>set (rows X). \<forall>c\<in>set num. to_num (cell_of r c) \<noteq> None"
    and cats: "\<forall>c\<in>set cat. (\<forall>r\<in>set (rows X). \<exists>s. cell_of r c = Str s) \<or>
                            (\<forall>r\<in>set (rows X). \<exists>b. cell_of r c = Boolean b)"
    and y: "\<forall>c\<in>set (s_cells y). to_num c \<noteq> None"
  shows "\<exists>f fct. pipeline_fit solve [(n1, Preprocessor (preprocessor num cat)), (n2, Poly pf), (n3, Model r)] X y = Inr f \<and>
           column_transformer_fit (preprocessor num cat) X = Inr fct \<and>
           fitted_preprocessor f = fct \<and> n_features_in f = n_features_pre fct \<and> fitted_poly f = pf \<and> fitted_model f = r"
proof -
  obtain r0 where r0: "r0 \<in> set (rows X)"
    using rows by (cases "rows X") auto
  have obs: "observed (map to_num (column_cells X c)) \<noteq> []" if "c \<in> set num" for c
    using nums that r0 by (auto simp: observed_map_Nil column_cells_def)
  then have a: "list_ex (\<lambda>c. observed (map to_num (column_cells X c)) \<noteq> []) num"
    using num by (cases num) (auto simp: list_ex_iff)
  have kind: "same_kind (observed (map to_cat (column_cells X c))) \<and> observed (map to_cat (column_cells X c)) \<noteq> []"
    if c: "c \<in> set cat" for c
  proof -
    consider "\<forall>r\<in>set (rows X). \<exists>s. cell_of r c = Str s" | "\<forall>r\<in>set (rows X). \<exists>b. cell_of r c = Boolean b"
      using cats c by blast
    then show ?thesis
    proof cases
      case 1
      then have "\<forall>x\<in>set (observed (map to_cat (column_cells X c))). \<exists>s. x = Text s"
        by (fastforce simp: set_observed column_cells_def to_cat_def)
      then have "same_kind (observed (map to_cat (column_cells X c)))"
        unfolding same_kind_def list_all_iff by (metis category.simps(11))
      moreover have "to_cat (cell_of r0 c) \<noteq> None"
        using 1 r0 by (auto simp: to_cat_def)
      ultimately show ?thesis
        using r0 by (auto simp: observed_map_Nil column_cells_def)
    next
      case 2
      then have "\<forall>x\<in>set (observed (map to_cat (column_cells X c))). \<exists>v. x = Number v"
        by (fastforce simp: set_observed column_cells_def to_cat_def)
      then have "same_kind (observed (map to_cat (column_cells X c)))"
        unfolding same_kind_def list_all_iff by (metis category.simps(10))
      moreover have "to_cat (cell_of r0 c) \<noteq> None"
        using 2 r0 by (auto simp: to_cat_def)
      ultimately show ?thesis
        using r0 by (auto simp: observed_map_Nil column_cells_def)
    qed
  qed
  have b: "list_ex (\<lambda>c. observed (map to_cat (column_cells X c)) \<noteq> []) cat" if "cat \<noteq> []"
    using that kind by (cases cat) (auto simp: list_ex_iff)
  have c: "list_all (\<lambda>c. same_kind (observed (map to_cat (column_cells X c)))) cat"
    using kind by (simp add: list_all_iff)
  obtain fct where fit: "column_transformer_fit (preprocessor num cat) X = Inr fct"
    using preprocessor_fit_ok[OF cols a b c] by blast
  have "filter (\<lambda>c. observed (map to_num (column_cells X c)) \<noteq> []) num = num"
    using obs by (simp add: filter_id_conv)
  then have n: "n_features_pre fct \<noteq> 0"
    unfolding preprocessor_n_features[OF fit] using num by simp
  have "\<not> list_ex (\<lambda>c. to_num c = None) (s_cells y)"
    using y by (simp add: list_ex_iff)
  then have t: "targets y = Inr (observed (map to_num (s_cells y)))"
    by (simp add: targets_def)
  show ?thesis
    using pipeline_fit_ok[OF fit rows t n, of solve n1 n2 pf n3 r] fit by blast
qed

end
